theory Spec2Isabelle
  imports Complex_Main
begin

section \<open>Numbers, points and faults\<close>

text \<open>
  The C++ code computes in \<open>float\<close>. The embedding idealises a finite \<open>float\<close> to an exact
  \<open>real\<close> (rounding and overflow are not modelled) and keeps the one non-finite value the
  selection code can produce from finite inputs: the quotient \<open>0/0\<close>, a NaN. It arises in
  the three divisions of \<open>estimateGradients\<close> (by the running maximum, by the grouped count and
  by the feature count); at each of them the dividend is zero whenever the divisor is, so
  no infinity is produced. A NaN propagates through arithmetic and makes every comparison
  false, as in IEEE 754.
\<close>

datatype flt = Num real | NaN

fun fdiv :: "flt \<Rightarrow> flt \<Rightarrow> flt" where
  "fdiv (Num a) (Num b) = (if b = 0 then NaN else Num (a / b))"
| "fdiv _ _ = NaN"

fun fadd :: "flt \<Rightarrow> flt \<Rightarrow> flt" where
  "fadd (Num a) (Num b) = Num (a + b)"
| "fadd _ _ = NaN"

fun fsub :: "flt \<Rightarrow> flt \<Rightarrow> flt" where
  "fsub (Num a) (Num b) = Num (a - b)"
| "fsub _ _ = NaN"

fun fmul :: "flt \<Rightarrow> flt \<Rightarrow> flt" where
  "fmul (Num a) (Num b) = Num (a * b)"
| "fmul _ _ = NaN"

text \<open>\<open>std::sqrt\<close> of a negative number is a NaN.\<close>

fun fsqrt :: "flt \<Rightarrow> flt" where
  "fsqrt (Num a) = (if a < 0 then NaN else Num (sqrt a))"
| "fsqrt NaN = NaN"

fun fge :: "flt \<Rightarrow> flt \<Rightarrow> bool" where
  "fge (Num a) (Num b) = (b \<le> a)"
| "fge _ _ = False"

fun fgt :: "flt \<Rightarrow> flt \<Rightarrow> bool" where
  "fgt (Num a) (Num b) = (b < a)"
| "fgt _ _ = False"

fun flt_less :: "flt \<Rightarrow> flt \<Rightarrow> bool" where
  "flt_less (Num a) (Num b) = (a < b)"
| "flt_less _ _ = False"

text \<open>\<open>pcl::PointXYZI\<close> and \<open>Eigen::Vector3f\<close>.\<close>

record PointXYZI =
  pt_x :: real
  pt_y :: real
  pt_z :: real
  pt_intensity :: real

type_synonym Vector3f = "real \<times> real \<times> real"

definition xyz :: "PointXYZI \<Rightarrow> Vector3f" where
  "xyz p = (pt_x p, pt_y p, pt_z p)"

fun vsub :: "Vector3f \<Rightarrow> Vector3f \<Rightarrow> Vector3f" where
  "vsub (a, b, c) (d, e, f) = (a - d, b - e, c - f)"

fun vadd :: "Vector3f \<Rightarrow> Vector3f \<Rightarrow> Vector3f" where
  "vadd (a, b, c) (d, e, f) = (a + d, b + e, c + f)"

fun vscale_div :: "Vector3f \<Rightarrow> real \<Rightarrow> Vector3f" where
  "vscale_div (a, b, c) n = (a / n, b / n, c / n)"

definition norm3 :: "Vector3f \<Rightarrow> real" where
  "norm3 v = (case v of (a, b, c) \<Rightarrow> sqrt (a * a + b * b + c * c))"

text \<open>
  A fault is what ends a call early: \<open>std::out_of_range\<close>, thrown by every \<open>at()\<close> of a
  vector or a cloud, and \<open>back()\<close> of an empty vector, which is undefined behaviour.
\<close>

datatype fault = OutOfRange | EmptyBack

definition bindE :: "fault + 'a \<Rightarrow> ('a \<Rightarrow> fault + 'b) \<Rightarrow> fault + 'b" where
  "bindE m f = (case m of Inl e \<Rightarrow> Inl e | Inr v \<Rightarrow> f v)"

definition vec_at :: "'a list \<Rightarrow> nat \<Rightarrow> fault + 'a" where
  "vec_at xs i = (if i < length xs then Inr (xs ! i) else Inl OutOfRange)"

definition set_at :: "'a list \<Rightarrow> nat \<Rightarrow> 'a \<Rightarrow> fault + 'a list" where
  "set_at xs i v = (if i < length xs then Inr (xs[i := v]) else Inl OutOfRange)"

text \<open>A \<open>for\<close> loop over a sequence whose body may throw.\<close>

fun foldE :: "('a \<Rightarrow> 's \<Rightarrow> fault + 's) \<Rightarrow> 'a list \<Rightarrow> 's \<Rightarrow> fault + 's" where
  "foldE f [] s = Inr s"
| "foldE f (a # as) s = (case f a s of Inl e \<Rightarrow> Inl e | Inr s' \<Rightarrow> foldE f as s')"

section \<open>The collaborators' data\<close>

text \<open>
  \<open>ExtractedFeatures\<close> is declared outside the files at hand; the selection code reads the
  members below. \<open>getRowColInRawData\<close> and \<open>getRange\<close> are taken as given functions of
  the index, \<open>cloud_raw->width\<close> and the number of scan rows as given numbers, the two counts
  of the diagnostics message and the two clouds returned by \<open>getLessSharpCorners\<close> and
  \<open>getLessFlatSurfs\<close> as given values. Indices, rows and columns are natural numbers
  (they stay far below \<open>2^31\<close>, so no machine arithmetic wraps on them).
\<close>

record ExtractedFeatures =
  cloud_filt :: "PointXYZI list"
  cloud_raw_width :: nat
  cloud_raw_height :: nat
  getRowColInRawData :: "nat \<Rightarrow> nat \<times> nat"
  getRange :: "nat \<Rightarrow> real"
  indices_corners_less_sharp :: "nat list list"
  indices_surfs_less_flat :: "nat list list"
  corner_points_less_sharp_count :: nat
  surf_points_less_flat_count :: nat
  getLessSharpCorners :: "PointXYZI list"
  getLessFlatSurfs :: "PointXYZI list"

text \<open>
  Modelled from the spec: \<open>ExtractedFeatures::buildOrderedFeatureTable\<close>, whose body is
  not among the source files. The spec describes "a dense row\<times>column table mapping to
  OrganizedCloud indices, with a sentinel for absent cells"; the sentinel is \<open>-1\<close>
  (\<open>getNeighborsInBB\<close> tests for it). A cell holds the index of the candidate whose
  (row, column) address it is; were two candidates to share an address, the later one
  in row order would be kept.
\<close>

definition ordered_cell :: "ExtractedFeatures \<Rightarrow> nat list list \<Rightarrow> nat \<Rightarrow> nat \<Rightarrow> int" where
  "ordered_cell ef indices_in_filt i j =
     (case find (\<lambda>idx. getRowColInRawData ef idx = (i, j)) (rev (concat indices_in_filt)) of
        None \<Rightarrow> - 1
      | Some idx \<Rightarrow> int idx)"

definition buildOrderedFeatureTable :: "ExtractedFeatures \<Rightarrow> nat list list \<Rightarrow> int list list" where
  "buildOrderedFeatureTable ef indices_in_filt =
     map (\<lambda>i. map (\<lambda>j. ordered_cell ef indices_in_filt i j) [0..<cloud_raw_width ef])
       [0..<cloud_raw_height ef]"

section \<open>The selection object\<close>

text \<open>The private members of \<open>FeatureSelection\<close> that the selection reads or writes.\<close>

record FeatureSelection =
  resolution_corners :: flt
  resolution_surfs :: flt
  resolution_corners_min :: real
  resolution_corners_max :: real
  resolution_surfs_min :: real
  resolution_surfs_max :: real
  features_selection_enabled :: bool
  features_min_count_percent :: real
  corners_keep_percentile :: real
  surfs_keep_percentile :: real
  neigh_idxs_rows_cols :: "(nat \<times> nat) list list"

definition HFOV_RESOLUTION :: real where
  "HFOV_RESOLUTION = 0.00613592315"

definition VFOV_RESOLUTION :: real where
  "VFOV_RESOLUTION = 0.03862995413"

definition ROW_SIZE :: nat where
  "ROW_SIZE = 1024"

definition NEIGH_IDX_PREC_RANGE_RES :: real where
  "NEIGH_IDX_PREC_RANGE_RES = 0.2"

subsection \<open>getNearestNeighborLimits\<close>

text \<open>
  The member \<open>_neigh_idxs_rows_cols\<close> is read through the object. The bucket index is the
  floor of a quotient of two non-negative numbers (a range is a distance), converted to
  \<open>unsigned int\<close>.
\<close>

definition getNearestNeighborLimits :: "FeatureSelection \<Rightarrow> real \<Rightarrow> (nat \<times> nat) list" where
  "getNearestNeighborLimits fs point_distance =
     (let idx = nat \<lfloor>point_distance / NEIGH_IDX_PREC_RANGE_RES\<rfloor> in
      if idx < length (neigh_idxs_rows_cols fs) then neigh_idxs_rows_cols fs ! idx else [])"

subsection \<open>getNeighborsInBB\<close>

text \<open>
  The \<open>unordered_map\<close> from a candidate index to the positions of its neighbours is a
  function into lists: \<open>operator[]\<close> reads a missing key as the empty vector, and so does
  the function. The three nested loops each thread the map; a fault of the body ends
  the whole call.
\<close>

type_synonym neighbors_map = "nat \<Rightarrow> Vector3f list"

definition visit_cell ::
  "int list list \<Rightarrow> PointXYZI list \<Rightarrow> flt \<Rightarrow> nat \<Rightarrow> nat \<Rightarrow> nat \<Rightarrow> nat \<Rightarrow> nat
     \<Rightarrow> neighbors_map \<Rightarrow> fault + neighbors_map" where
  "visit_cell ordered_table cloud max_range idx_in_filt this_r this_c i j neighbors_map =
     (if i = this_r \<and> j = this_c then Inr neighbors_map
      else
        bindE (vec_at ordered_table i) (\<lambda>row.
        bindE (vec_at row j) (\<lambda>neighbor_idx.
          if neighbor_idx \<noteq> - 1 then
            bindE (if 0 \<le> neighbor_idx then vec_at cloud (nat neighbor_idx) else Inl OutOfRange)
              (\<lambda>neighbor_point.
            bindE (vec_at cloud idx_in_filt) (\<lambda>point_pt.
              let point = xyz point_pt; neighbor = xyz neighbor_point in
              if flt_less (Num (norm3 (vsub neighbor point))) max_range
              then Inr (neighbors_map (idx_in_filt := neighbors_map idx_in_filt @ [neighbor]))
              else Inr neighbors_map))
          else Inr neighbors_map)))"

definition visit_row ::
  "int list list \<Rightarrow> PointXYZI list \<Rightarrow> nat \<Rightarrow> flt \<Rightarrow> (nat \<times> nat) list \<Rightarrow> nat \<Rightarrow> nat \<Rightarrow> nat
     \<Rightarrow> nat \<Rightarrow> neighbors_map \<Rightarrow> fault + neighbors_map" where
  "visit_row ordered_table cloud cloud_width max_range row_col_idxs idx_in_filt this_r this_c i
       neighbors_map =
     (let dv = nat \<bar>int i - int this_r\<bar> in
      bindE (vec_at row_col_idxs dv) (\<lambda>entry.
        let h_idx = snd entry;
            col_min = nat (max 0 (int this_c - int h_idx));
            col_max = nat (min (int cloud_width) (int (this_c + h_idx + 1)))
        in foldE (visit_cell ordered_table cloud max_range idx_in_filt this_r this_c i)
             [col_min..<col_max] neighbors_map))"

definition visit_candidate ::
  "FeatureSelection \<Rightarrow> ExtractedFeatures \<Rightarrow> int list list \<Rightarrow> flt \<Rightarrow> nat
     \<Rightarrow> neighbors_map \<Rightarrow> fault + neighbors_map" where
  "visit_candidate fs ef ordered_table max_range idx_in_filt neighbors_map =
     (let (this_r, this_c) = getRowColInRawData ef idx_in_filt;
          d = getRange ef idx_in_filt;
          row_col_idxs = getNearestNeighborLimits fs d
      in if row_col_idxs = [] then Inl EmptyBack
         else
           let max_v_idx = fst (last row_col_idxs);
               cloud_height = length ordered_table;
               row_min = nat (max 0 (int this_r - int max_v_idx));
               row_max = nat (min (int cloud_height) (int (this_r + max_v_idx + 1)))
           in foldE (visit_row ordered_table (cloud_filt ef) (cloud_raw_width ef) max_range
                       row_col_idxs idx_in_filt this_r this_c)
                [row_min..<row_max] neighbors_map)"

definition getNeighborsInBB ::
  "FeatureSelection \<Rightarrow> ExtractedFeatures \<Rightarrow> nat list list \<Rightarrow> flt \<Rightarrow> fault + neighbors_map" where
  "getNeighborsInBB fs ef indices_in_filt max_range =
     (let ordered_table = buildOrderedFeatureTable ef indices_in_filt in
      foldE (\<lambda>indices_row. foldE (visit_candidate fs ef ordered_table max_range) indices_row)
        indices_in_filt (\<lambda>_. []))"

subsection \<open>estimateGradients\<close>

text \<open>
  \<open>standalone_points_indices\<close> and \<open>gradient_norms\<close> are allocated with \<open>features_count\<close>
  slots, filled through the two counters and cut to the counters after the loop. The
  model keeps the filled prefixes; writing slot number \<open>features_count\<close> is the
  \<open>out_of_range\<close> of \<open>at()\<close>.
\<close>

definition gradient_step ::
  "PointXYZI list \<Rightarrow> nat \<Rightarrow> neighbors_map \<Rightarrow> nat
     \<Rightarrow> (nat \<times> real) list \<times> nat list \<times> real
     \<Rightarrow> fault + ((nat \<times> real) list \<times> nat list \<times> real)" where
  "gradient_step cloud features_count neighbors idx st =
     (let (gradient_norms, standalone_points_indices, grad_norm_max) = st in
      if length (neighbors idx) > 0 then
        bindE (vec_at cloud idx) (\<lambda>p.
          let point_xyz = xyz p;
              gradient = foldl (\<lambda>g neighbor. vadd g (vsub neighbor point_xyz)) (0, 0, 0)
                           (neighbors idx);
              grad_norm = norm3 (vscale_div gradient (real (length (neighbors idx))))
          in if length gradient_norms < features_count
             then Inr (gradient_norms @ [(idx, grad_norm)], standalone_points_indices,
                       max grad_norm_max grad_norm)
             else Inl OutOfRange)
      else if length standalone_points_indices < features_count
           then Inr (gradient_norms, standalone_points_indices @ [idx], grad_norm_max)
           else Inl OutOfRange)"

text \<open>
  \<open>std::sort\<close> with the comparator \<open>i.second > j.second\<close>: non-ascending in the normalised
  gradient. The order of equal elements is unspecified in C++; the model is an insertion
  sort that keeps it.
\<close>

fun insert_desc :: "nat \<times> flt \<Rightarrow> (nat \<times> flt) list \<Rightarrow> (nat \<times> flt) list" where
  "insert_desc a [] = [a]"
| "insert_desc a (b # bs) = (if fgt (snd b) (snd a) then b # insert_desc a bs else a # b # bs)"

fun sort_desc :: "(nat \<times> flt) list \<Rightarrow> (nat \<times> flt) list" where
  "sort_desc [] = []"
| "sort_desc (a # as) = insert_desc a (sort_desc as)"

definition normalize_gradients :: "(nat \<times> real) list \<Rightarrow> real \<Rightarrow> (nat \<times> flt) list" where
  "normalize_gradients gradient_norms grad_norm_max =
     map (\<lambda>(idx, g). (idx, fdiv (Num g) (Num grad_norm_max))) gradient_norms"

definition estimateGradients ::
  "FeatureSelection \<Rightarrow> ExtractedFeatures \<Rightarrow> nat \<Rightarrow> nat list list \<Rightarrow> flt
     \<Rightarrow> fault + (nat list \<times> (nat \<times> flt) list \<times> flt \<times> flt)" where
  "estimateGradients fs ef features_count indices_in_filt search_radius =
     bindE (getNeighborsInBB fs ef indices_in_filt search_radius) (\<lambda>neighbors.
     bindE (foldE (\<lambda>indices_row.
                     foldE (gradient_step (cloud_filt ef) features_count neighbors) indices_row)
              indices_in_filt ([], [], 0))
       (\<lambda>(gradient_norms, standalone_points_indices, grad_norm_max).
          let grouped_features_count = length gradient_norms;
              normalized = normalize_gradients gradient_norms grad_norm_max;
              grad_norm_mean = fdiv (foldl fadd (Num 0) (map snd normalized))
                                 (Num (real grouped_features_count));
              grad_norm_std =
                fsqrt (fdiv (foldl fadd (Num 0)
                               (map (\<lambda>g. fmul (fsub (snd g) grad_norm_mean)
                                                (fsub (snd g) grad_norm_mean)) normalized))
                         (Num (real features_count)))
          in Inr (standalone_points_indices, sort_desc normalized, grad_norm_mean,
                  grad_norm_std)))"

subsection \<open>selectFeaturesFromCloudByGradient\<close>

definition default_point :: PointXYZI where
  "default_point = \<lparr>pt_x = 0, pt_y = 0, pt_z = 0, pt_intensity = 0\<rparr>"

definition resize :: "'a list \<Rightarrow> nat \<Rightarrow> 'a \<Rightarrow> 'a list" where
  "resize xs n d = take n xs @ replicate (n - length xs) d"

text \<open>
  The index of the cut-off is \<open>std::floor(percentile * gradients.size())\<close>, handed to
  \<open>at()\<close> as it is. (A negative product has no defined conversion to an index; the model
  reports it as the same fault.)
\<close>

definition cutoff_entry :: "(nat \<times> flt) list \<Rightarrow> real \<Rightarrow> fault + (nat \<times> flt)" where
  "cutoff_entry gradients percentile =
     (let i = \<lfloor>percentile * real (length gradients)\<rfloor> in
      if i < 0 then Inl OutOfRange else vec_at gradients (nat i))"

definition fill_standalone ::
  "PointXYZI list \<Rightarrow> nat list \<Rightarrow> nat \<Rightarrow> PointXYZI list \<times> flt list
     \<Rightarrow> fault + (PointXYZI list \<times> flt list)" where
  "fill_standalone cloud standalone_points_indices i st =
     (let (selected_features, gradient_norms_all) = st in
      bindE (vec_at standalone_points_indices i) (\<lambda>idx.
      bindE (vec_at cloud idx) (\<lambda>p.
      bindE (set_at selected_features i p) (\<lambda>selected_features'.
      bindE (set_at gradient_norms_all i (Num 1)) (\<lambda>gradient_norms_all'.
        Inr (selected_features', gradient_norms_all'))))))"

definition select_grouped ::
  "PointXYZI list \<Rightarrow> nat \<Rightarrow> (nat \<times> flt) list \<Rightarrow> flt \<Rightarrow> nat
     \<Rightarrow> PointXYZI list \<times> flt list \<times> nat
     \<Rightarrow> fault + (PointXYZI list \<times> flt list \<times> nat)" where
  "select_grouped cloud standalone_size gradients grad_cutoff_thrd i st =
     (let (selected_features, gradient_norms_all, k) = st in
      bindE (vec_at gradients i) (\<lambda>entry.
        let grad = snd entry in
        bindE (set_at gradient_norms_all (standalone_size + i) grad) (\<lambda>gradient_norms_all'.
          if fge grad grad_cutoff_thrd then
            bindE (vec_at cloud (fst entry)) (\<lambda>point_grad.
            bindE (set_at selected_features k point_grad) (\<lambda>selected_features'.
              Inr (selected_features', gradient_norms_all', k + 1)))
          else Inr (selected_features, gradient_norms_all', k))))"

definition selectFeaturesFromCloudByGradient ::
  "FeatureSelection \<Rightarrow> ExtractedFeatures \<Rightarrow> nat \<Rightarrow> nat list list \<Rightarrow> flt \<Rightarrow> real
     \<Rightarrow> fault + (PointXYZI list \<times> flt list \<times> flt \<times> flt \<times> flt)" where
  "selectFeaturesFromCloudByGradient fs ef features_count indices_in_filt search_radius percentile =
     (if features_count = 0 then Inr ([], [], Num (- 1), Num (- 1), Num (- 1))
      else
        let selected_features = replicate features_count default_point;
            gradient_norms_all = replicate features_count (Num 0)
        in
        bindE (estimateGradients fs ef features_count indices_in_filt search_radius)
          (\<lambda>(standalone_points_indices, gradients, grad_norm_mean, grad_norm_std).
        bindE (cutoff_entry gradients percentile) (\<lambda>entry.
          let grad_cutoff_thrd = snd entry in
        bindE (foldE (fill_standalone (cloud_filt ef) standalone_points_indices)
                 [0..<length standalone_points_indices] (selected_features, gradient_norms_all))
          (\<lambda>(selected_features1, gradient_norms_all1).
        bindE (foldE (select_grouped (cloud_filt ef) (length standalone_points_indices)
                        gradients grad_cutoff_thrd)
                 [0..<length gradients]
                 (selected_features1, gradient_norms_all1, length standalone_points_indices))
          (\<lambda>(selected_features2, gradient_norms_all2, k).
             Inr (if k \<noteq> features_count then resize selected_features2 k default_point
                  else selected_features2,
                  gradient_norms_all2, grad_norm_mean, grad_norm_std, grad_cutoff_thrd))))))"

subsection \<open>estimateResolution\<close>

definition estimateResolution :: "flt \<Rightarrow> flt list \<Rightarrow> real \<Rightarrow> real \<Rightarrow> flt" where
  "estimateResolution percent fnc_sorted min_res max_res =
     fadd (Num min_res) (fmul percent (Num (max_res - min_res)))"

subsection \<open>selectFeatures\<close>

text \<open>
  The call returns the two clouds and the two resolutions, leaves the object in a new
  state and stores a diagnostics message; of the message the model keeps the counts,
  the resolutions and the cut-offs (sizes in kilobytes and timings are left out, and so
  is the best-effort publication, which changes nothing the call returns).
\<close>

record FeatureSelectionDiagnostics =
  diag_enabled :: bool
  diag_number_of_corners_in :: nat
  diag_number_of_surfs_in :: nat
  diag_number_of_corners_out :: nat
  diag_number_of_surfs_out :: nat
  diag_corners_resolution :: flt
  diag_surfs_resolution :: flt
  diag_corners_cutoff_thrd :: flt
  diag_surfs_cutoff_thrd :: flt

definition diag_msg_in :: "FeatureSelection \<Rightarrow> ExtractedFeatures \<Rightarrow> FeatureSelectionDiagnostics" where
  "diag_msg_in fs ef =
     \<lparr>diag_enabled = features_selection_enabled fs,
      diag_number_of_corners_in = corner_points_less_sharp_count ef,
      diag_number_of_surfs_in = surf_points_less_flat_count ef,
      diag_number_of_corners_out = 0,
      diag_number_of_surfs_out = 0,
      diag_corners_resolution = Num 0,
      diag_surfs_resolution = Num 0,
      diag_corners_cutoff_thrd = Num 0,
      diag_surfs_cutoff_thrd = Num 0\<rparr>"

definition selectFeatures ::
  "FeatureSelection \<Rightarrow> ExtractedFeatures
     \<Rightarrow> fault + ((PointXYZI list \<times> PointXYZI list \<times> flt \<times> flt)
                  \<times> FeatureSelection \<times> FeatureSelectionDiagnostics)" where
  "selectFeatures fs ef =
     (let diag_msg = diag_msg_in fs ef in
      if \<not> features_selection_enabled fs then
        Inr ((getLessSharpCorners ef, getLessFlatSurfs ef, resolution_corners fs,
              resolution_surfs fs), fs, diag_msg)
      else
        bindE (selectFeaturesFromCloudByGradient fs ef (corner_points_less_sharp_count ef)
                 (indices_corners_less_sharp ef) (resolution_corners fs)
                 (corners_keep_percentile fs))
          (\<lambda>(selected_corners, corner_gradients, corner_gradients_mean, corner_gradients_std,
              corner_grad_cutoff).
        bindE (selectFeaturesFromCloudByGradient fs ef (surf_points_less_flat_count ef)
                 (indices_surfs_less_flat ef) (resolution_surfs fs) (surfs_keep_percentile fs))
          (\<lambda>(selected_surfs, surf_gradients, surf_gradients_mean, surf_gradients_std,
              surf_grad_cutoff).
           let fs' = fs\<lparr>resolution_corners :=
                          estimateResolution corner_grad_cutoff corner_gradients
                            (resolution_corners_min fs) (resolution_corners_max fs),
                        resolution_surfs :=
                          estimateResolution surf_grad_cutoff surf_gradients
                            (resolution_surfs_min fs) (resolution_surfs_max fs)\<rparr>;
               diag_msg' = diag_msg\<lparr>diag_number_of_corners_out := length selected_corners,
                                     diag_number_of_surfs_out := length selected_surfs,
                                     diag_corners_resolution := resolution_corners fs',
                                     diag_surfs_resolution := resolution_surfs fs',
                                     diag_corners_cutoff_thrd := corner_grad_cutoff,
                                     diag_surfs_cutoff_thrd := surf_grad_cutoff\<rparr>
           in Inr ((selected_corners, selected_surfs, resolution_corners fs',
                    resolution_surfs fs'), fs', diag_msg'))))"

subsection \<open>The constructor\<close>

text \<open>
  \<open>std::atan2(y, x)\<close> on reals (signed zeros are not modelled). The constructor calls it
  with \<open>y > 0\<close> or \<open>y = 0\<close>, and \<open>x \<ge> 0\<close>.
\<close>

definition atan2 :: "real \<Rightarrow> real \<Rightarrow> real" where
  "atan2 y x =
     (if 0 < x then arctan (y / x)
      else if x < 0 then (if 0 \<le> y then arctan (y / x) + pi else arctan (y / x) - pi)
      else if 0 < y then pi / 2
      else if y < 0 then - (pi / 2)
      else 0)"

text \<open>The local constant \<open>R\<close> of the constructor.\<close>

definition R_search :: real where
  "R_search = 0.6"

definition max_v_idx_of :: "real \<Rightarrow> nat" where
  "max_v_idx_of rng = nat \<lfloor>atan2 R_search rng / VFOV_RESOLUTION\<rfloor>"

definition k_of :: "real \<Rightarrow> nat \<Rightarrow> real" where
  "k_of rng i = rng * tan (real i * VFOV_RESOLUTION)"

definition max_h_idx_of :: "real \<Rightarrow> nat \<Rightarrow> nat" where
  "max_h_idx_of rng i =
     (let k = k_of rng i in
      nat \<lfloor>atan2 (sqrt (R_search * R_search - k * k)) rng / HFOV_RESOLUTION\<rfloor>)"

text \<open>
  The body of the \<open>for\<close> loop pushes \<open>(max_v_idx, max_h_idx)\<close> for every \<open>i \<le> max_v_idx\<close>
  and raises \<open>stop\<close> when both are zero.
\<close>

definition bucket_idxs :: "real \<Rightarrow> (nat \<times> nat) list" where
  "bucket_idxs rng =
     map (\<lambda>i. (max_v_idx_of rng, max_h_idx_of rng i)) [0..<max_v_idx_of rng + 1]"

definition bucket_stops :: "(nat \<times> nat) list \<Rightarrow> bool" where
  "bucket_stops idxs = list_ex (\<lambda>e. fst e = 0 \<and> snd e = 0) idxs"

text \<open>
  The \<open>while (!stop)\<close> loop. Whether it ends is part of what is to be shown, so the model
  is a partial function: \<open>None\<close> is a loop that runs forever.
\<close>

partial_function (option) build_neigh_idxs ::
  "nat \<Rightarrow> (nat \<times> nat) list list \<Rightarrow> (nat \<times> nat) list list option" where
  "build_neigh_idxs sample tbl =
     (let rng = real sample * NEIGH_IDX_PREC_RANGE_RES;
          idxs = bucket_idxs rng;
          tbl' = tbl @ [idxs]
      in if bucket_stops idxs then Some tbl' else build_neigh_idxs (sample + 1) tbl')"

text \<open>
  The constructor, from the eight loaded parameters to the object; the two resolutions
  start in the middle of their bounds.
\<close>

definition FeatureSelection_new ::
  "real \<Rightarrow> real \<Rightarrow> real \<Rightarrow> real \<Rightarrow> bool \<Rightarrow> real \<Rightarrow> real \<Rightarrow> real \<Rightarrow> FeatureSelection option" where
  "FeatureSelection_new corners_min corners_max surfs_min surfs_max enable min_count_percent
       corners_percentile surfs_percentile =
     (case build_neigh_idxs 0 [] of
        None \<Rightarrow> None
      | Some tbl \<Rightarrow>
          Some \<lparr>resolution_corners = Num ((corners_max + corners_min) / 2),
                resolution_surfs = Num ((surfs_max + surfs_min) / 2),
                resolution_corners_min = corners_min,
                resolution_corners_max = corners_max,
                resolution_surfs_min = surfs_min,
                resolution_surfs_max = surfs_max,
                features_selection_enabled = enable,
                features_min_count_percent = min_count_percent,
                corners_keep_percentile = corners_percentile,
                surfs_keep_percentile = surfs_percentile,
                neigh_idxs_rows_cols = tbl\<rparr>)"

text \<open>The bucket that the loop pushes for a given value of \<open>sample\<close>.\<close>

definition bucket_of_sample :: "nat \<Rightarrow> (nat \<times> nat) list" where
  "bucket_of_sample s = bucket_idxs (real s * NEIGH_IDX_PREC_RANGE_RES)"

text \<open>
  The object under the default values of \<open>loadParam\<close>, with the master switch as given.
  The constructor does return (\<open>default_FeatureSelection_eq\<close> below), so \<open>the\<close> reads a
  defined value.
\<close>

definition default_FeatureSelection :: "bool \<Rightarrow> FeatureSelection option" where
  "default_FeatureSelection enable = FeatureSelection_new 0.05 0.6 0.1 1.0 enable 0.3 0.5 0.5"

definition default_object :: "bool \<Rightarrow> FeatureSelection" where
  "default_object enable = the (default_FeatureSelection enable)"

text \<open>The two persistent resolutions after a call.\<close>

definition resolutions_after ::
  "fault + ('r \<times> FeatureSelection \<times> 'd) \<Rightarrow> fault + (flt \<times> flt)" where
  "resolutions_after res =
     (case res of
        Inl e \<Rightarrow> Inl e
      | Inr out \<Rightarrow> Inr (resolution_corners (fst (snd out)), resolution_surfs (fst (snd out))))"

section \<open>What the search and the selection compute\<close>

text \<open>
  Closed descriptions of the results of the loops above, used to state and prove the
  properties below. \<open>neighbor_of_cell\<close> is the contribution of one grid cell to the
  neighbours of a candidate: the position stored there if the cell is not the candidate's
  own, is not empty and lies strictly closer than the search radius, and nothing
  otherwise.
\<close>

definition neighbor_of_cell ::
  "ExtractedFeatures \<Rightarrow> nat list list \<Rightarrow> flt \<Rightarrow> nat \<Rightarrow> nat \<Rightarrow> nat \<Rightarrow> Vector3f list" where
  "neighbor_of_cell ef indices_in_filt max_range idx i j =
     (let n = ordered_cell ef indices_in_filt i j in
      if (i, j) \<noteq> getRowColInRawData ef idx \<and> n \<noteq> - 1 \<and>
         flt_less (Num (norm3 (vsub (xyz (cloud_filt ef ! nat n)) (xyz (cloud_filt ef ! idx)))))
           max_range
      then [xyz (cloud_filt ef ! nat n)] else [])"

text \<open>
  The exhaustive search in the words of the spec: a brute-force Euclidean radius search
  over every valid cell of the same grid.
\<close>

definition radius_search ::
  "ExtractedFeatures \<Rightarrow> nat list list \<Rightarrow> flt \<Rightarrow> nat \<Rightarrow> Vector3f list" where
  "radius_search ef indices_in_filt max_range idx =
     concat (map (\<lambda>i. concat (map (neighbor_of_cell ef indices_in_filt max_range idx i)
                                [0..<cloud_raw_width ef]))
               [0..<cloud_raw_height ef])"

text \<open>
  The rows and columns that \<open>getNeighborsInBB\<close> visits for a candidate, and the search
  restricted to them.
\<close>

definition window_rows :: "(nat \<times> nat) list \<Rightarrow> nat \<Rightarrow> nat \<Rightarrow> nat list" where
  "window_rows limits cloud_height this_r =
     (let max_v_idx = fst (last limits) in
      [nat (max 0 (int this_r - int max_v_idx))..<
       nat (min (int cloud_height) (int (this_r + max_v_idx + 1)))])"

definition window_cols :: "(nat \<times> nat) list \<Rightarrow> nat \<Rightarrow> nat \<Rightarrow> nat \<Rightarrow> nat \<Rightarrow> nat list" where
  "window_cols limits cloud_width this_r this_c i =
     (let h_idx = snd (limits ! nat \<bar>int i - int this_r\<bar>) in
      [nat (max 0 (int this_c - int h_idx))..<
       nat (min (int cloud_width) (int (this_c + h_idx + 1)))])"

definition window_search ::
  "FeatureSelection \<Rightarrow> ExtractedFeatures \<Rightarrow> nat list list \<Rightarrow> flt \<Rightarrow> nat \<Rightarrow> Vector3f list" where
  "window_search fs ef indices_in_filt max_range idx =
     (let limits = getNearestNeighborLimits fs (getRange ef idx);
          this_r = fst (getRowColInRawData ef idx);
          this_c = snd (getRowColInRawData ef idx)
      in concat (map (\<lambda>i. concat (map (neighbor_of_cell ef indices_in_filt max_range idx i)
                                  (window_cols limits (cloud_raw_width ef) this_r this_c i)))
                  (window_rows limits (cloud_raw_height ef) this_r)))"

text \<open>
  An envelope that \<open>getNeighborsInBB\<close> can read without a fault: it is not empty, and it
  has an entry for every row offset up to the one its last entry names.
\<close>

definition limits_ok :: "(nat \<times> nat) list \<Rightarrow> bool" where
  "limits_ok limits = (limits \<noteq> [] \<and> fst (last limits) < length limits)"

text \<open>The lookup of one candidate in the returned map.\<close>

definition neighbors_found :: "fault + neighbors_map \<Rightarrow> nat \<Rightarrow> fault + Vector3f list" where
  "neighbors_found res idx = (case res of Inl e \<Rightarrow> Inl e | Inr nm \<Rightarrow> Inr (nm idx))"

text \<open>
  The gradient of a feature from its neighbour list, the split of a batch into grouped
  and standalone features, the running maximum, and the statistics computed after the
  loop of \<open>estimateGradients\<close>.
\<close>

definition gradient_sum :: "PointXYZI list \<Rightarrow> Vector3f list \<Rightarrow> nat \<Rightarrow> Vector3f" where
  "gradient_sum cloud nbs idx =
     foldl (\<lambda>g neighbor. vadd g (vsub neighbor (xyz (cloud ! idx)))) (0, 0, 0) nbs"

definition grad_norm_of :: "PointXYZI list \<Rightarrow> Vector3f list \<Rightarrow> nat \<Rightarrow> real" where
  "grad_norm_of cloud nbs idx = norm3 (vscale_div (gradient_sum cloud nbs idx) (real (length nbs)))"

definition grouped_indices :: "neighbors_map \<Rightarrow> nat list \<Rightarrow> nat list" where
  "grouped_indices nb all = filter (\<lambda>i. nb i \<noteq> []) all"

definition standalone_indices :: "neighbors_map \<Rightarrow> nat list \<Rightarrow> nat list" where
  "standalone_indices nb all = filter (\<lambda>i. nb i = []) all"

definition raw_gradients :: "PointXYZI list \<Rightarrow> neighbors_map \<Rightarrow> nat list \<Rightarrow> (nat \<times> real) list" where
  "raw_gradients cloud nb all = map (\<lambda>i. (i, grad_norm_of cloud (nb i) i)) (grouped_indices nb all)"

definition running_max :: "real \<Rightarrow> (nat \<times> real) list \<Rightarrow> real" where
  "running_max m gs = foldl max m (map snd gs)"

definition gradient_statistics ::
  "(nat \<times> real) list \<Rightarrow> nat list \<Rightarrow> nat \<Rightarrow> nat list \<times> (nat \<times> flt) list \<times> flt \<times> flt" where
  "gradient_statistics gradient_norms standalone_points_indices features_count =
     (let grad_norm_max = running_max 0 gradient_norms;
          normalized = normalize_gradients gradient_norms grad_norm_max;
          grad_norm_mean = fdiv (foldl fadd (Num 0) (map snd normalized))
                             (Num (real (length gradient_norms)));
          grad_norm_std =
            fsqrt (fdiv (foldl fadd (Num 0)
                           (map (\<lambda>g. fmul (fsub (snd g) grad_norm_mean)
                                            (fsub (snd g) grad_norm_mean)) normalized))
                     (Num (real features_count)))
      in (standalone_points_indices, sort_desc normalized, grad_norm_mean, grad_norm_std))"

text \<open>The grouped features that \<open>selectFeaturesFromCloudByGradient\<close> keeps.\<close>

definition kept_gradients :: "(nat \<times> flt) list \<Rightarrow> flt \<Rightarrow> (nat \<times> flt) list" where
  "kept_gradients gradients grad_cutoff_thrd = filter (\<lambda>g. fge (snd g) grad_cutoff_thrd) gradients"

section \<open>Scans used as concrete inputs\<close>

text \<open>A scan without any feature: both batches are empty.\<close>

definition empty_scan :: ExtractedFeatures where
  "empty_scan =
     \<lparr>cloud_filt = [], cloud_raw_width = 1024, cloud_raw_height = 16,
      getRowColInRawData = (\<lambda>idx. (0, 0)), getRange = (\<lambda>idx. 0),
      indices_corners_less_sharp = [], indices_surfs_less_flat = [],
      corner_points_less_sharp_count = 0, surf_points_less_flat_count = 0,
      getLessSharpCorners = [], getLessFlatSurfs = []\<rparr>"

definition point_at :: "real \<Rightarrow> real \<Rightarrow> PointXYZI" where
  "point_at a b = \<lparr>pt_x = a, pt_y = b, pt_z = 0, pt_intensity = 1\<rparr>"

text \<open>
  One ring of 1024 azimuth bins looking at a wall ten metres ahead: three corner features
  in the bins 0, 1 and 3 (6 cm apart per bin), and a fourth one behind the sensor, in bin
  512. Ranges are given rounded to the centimetre.
\<close>

definition wall_scan :: ExtractedFeatures where
  "wall_scan =
     \<lparr>cloud_filt = [point_at 10 0, point_at 10 0.06, point_at 10 0.18, point_at (- 10) 0],
      cloud_raw_width = 1024, cloud_raw_height = 1,
      getRowColInRawData =
        (\<lambda>idx. (0, if idx = 0 then 0 else if idx = 1 then 1 else if idx = 2 then 3 else 512)),
      getRange = (\<lambda>idx. 10),
      indices_corners_less_sharp = [[0, 1, 2, 3]], indices_surfs_less_flat = [[]],
      corner_points_less_sharp_count = 4, surf_points_less_flat_count = 0,
      getLessSharpCorners =
        [point_at 10 0, point_at 10 0.06, point_at 10 0.18, point_at (- 10) 0],
      getLessFlatSurfs = []\<rparr>"

text \<open>The neighbour lists that the search finds in \<open>wall_scan\<close> with the default corner radius.\<close>

definition wall_neighbors :: neighbors_map where
  "wall_neighbors =
     (\<lambda>k. if k = 0 then [(10, 0.06, 0), (10, 0.18, 0)]
          else if k = 1 then [(10, 0, 0), (10, 0.18, 0)]
          else if k = 2 then [(10, 0, 0), (10, 0.06, 0)]
          else [])"

text \<open>One corner feature at 101 m, beyond the last bucket of the table (97.8 m).\<close>

definition far_scan :: ExtractedFeatures where
  "far_scan =
     \<lparr>cloud_filt = [point_at 101 0], cloud_raw_width = 1024, cloud_raw_height = 1,
      getRowColInRawData = (\<lambda>idx. (0, 0)), getRange = (\<lambda>idx. 101),
      indices_corners_less_sharp = [[0]], indices_surfs_less_flat = [[]],
      corner_points_less_sharp_count = 1, surf_points_less_flat_count = 0,
      getLessSharpCorners = [point_at 101 0], getLessFlatSurfs = []\<rparr>"

text \<open>One corner feature at ten metres, without any other feature around it.\<close>

definition lonely_scan :: ExtractedFeatures where
  "lonely_scan =
     \<lparr>cloud_filt = [point_at 10 0], cloud_raw_width = 1024, cloud_raw_height = 1,
      getRowColInRawData = (\<lambda>idx. (0, 0)), getRange = (\<lambda>idx. 10),
      indices_corners_less_sharp = [[0]], indices_surfs_less_flat = [[]],
      corner_points_less_sharp_count = 1, surf_points_less_flat_count = 0,
      getLessSharpCorners = [point_at 10 0], getLessFlatSurfs = []\<rparr>"

text \<open>
  Two corner features on the wall in the azimuth bins 0 and 1023, which are adjacent
  across the seam of the 360 degree scan: 6 cm apart.
\<close>

definition seam_scan :: ExtractedFeatures where
  "seam_scan =
     \<lparr>cloud_filt = [point_at 10 0, point_at 10 (- 0.06)],
      cloud_raw_width = 1024, cloud_raw_height = 1,
      getRowColInRawData = (\<lambda>idx. (0, if idx = 0 then 0 else 1023)),
      getRange = (\<lambda>idx. 10),
      indices_corners_less_sharp = [[0, 1]], indices_surfs_less_flat = [[]],
      corner_points_less_sharp_count = 2, surf_points_less_flat_count = 0,
      getLessSharpCorners = [point_at 10 0, point_at 10 (- 0.06)],
      getLessFlatSurfs = []\<rparr>"

text \<open>Two corner features in adjacent bins that carry the same position.\<close>

definition twin_scan :: ExtractedFeatures where
  "twin_scan =
     \<lparr>cloud_filt = [point_at 10 0, point_at 10 0],
      cloud_raw_width = 1024, cloud_raw_height = 1,
      getRowColInRawData = (\<lambda>idx. (0, if idx = 0 then 0 else 1)),
      getRange = (\<lambda>idx. 10),
      indices_corners_less_sharp = [[0, 1]], indices_surfs_less_flat = [[]],
      corner_points_less_sharp_count = 2, surf_points_less_flat_count = 0,
      getLessSharpCorners = [point_at 10 0, point_at 10 0],
      getLessFlatSurfs = []\<rparr>"

definition twin_neighbors :: neighbors_map where
  "twin_neighbors = (\<lambda>k. if k = 0 \<or> k = 1 then [(10, 0, 0)] else [])"

text \<open>
  The population standard deviation in the words of the spec: the square root of the sum
  of squared deviations from the mean, divided by the number of values.
\<close>

definition population_std :: "flt list \<Rightarrow> flt" where
  "population_std gs =
     (let n = Num (real (length gs));
          mean = fdiv (foldl fadd (Num 0) gs) n
      in fsqrt (fdiv (foldl fadd (Num 0) (map (\<lambda>g. fmul (fsub g mean) (fsub g mean)) gs)) n))"

section \<open>The angular table\<close>

lemma arctan_le_self0: "0 \<le> x \<Longrightarrow> arctan x \<le> (x::real)"
proof -
  assume x: "0 \<le> x"
  let ?f = "\<lambda>x. x - arctan x"
  have "\<And>u. \<lbrakk>0 \<le> u; u \<le> x\<rbrakk> \<Longrightarrow> \<exists>y. (?f has_real_derivative 1 - inverse (1 + u\<^sup>2)) (at u)"
    by (auto intro!: derivative_eq_intros simp: field_simps)
  moreover have "\<And>u::real. 0 \<le> 1 - inverse (1 + u\<^sup>2)"
    by (simp add: inverse_le_1_iff)
  ultimately have "?f x \<ge> ?f 0"
    by (metis DERIV_nonneg_imp_nondecreasing [OF x])
  then show ?thesis by simp
qed

lemma arctan_lower: "0 \<le> x \<Longrightarrow> x / (1 + x\<^sup>2) \<le> arctan (x::real)"
proof -
  assume x: "0 \<le> x"
  let ?g = "\<lambda>x::real. (1 + x\<^sup>2) * arctan x - x"
  have pos: "\<And>u::real. 0 < 1 + u\<^sup>2" by (simp add: add_pos_nonneg)
  have "\<And>u. \<lbrakk>0 \<le> u; u \<le> x\<rbrakk> \<Longrightarrow> (?g has_real_derivative (2 * u * arctan u)) (at u)"
  proof -
    fix u :: real
    have nz: "1 + u\<^sup>2 \<noteq> 0" using pos[of u] by simp
    show "(?g has_real_derivative (2 * u * arctan u)) (at u)"
      by (auto intro!: derivative_eq_intros simp: nz)
  qed
  moreover have "\<And>u::real. 0 \<le> u \<Longrightarrow> 0 \<le> 2 * u * arctan u" by simp
  ultimately have "?g x \<ge> ?g 0"
    by (intro DERIV_nonneg_imp_nondecreasing [OF x]) blast
  then have "x \<le> (1 + x\<^sup>2) * arctan x" by simp
  then show ?thesis using pos[of x] by (simp add: field_simps)
qed

lemma k_of_zero [simp]: "k_of rng 0 = 0"
  by (simp add: k_of_def)

lemma max_h_idx_zero:
  "0 < rng \<Longrightarrow> max_h_idx_of rng 0 = nat \<lfloor>arctan (R_search / rng) / HFOV_RESOLUTION\<rfloor>"
proof -
  assume "0 < rng"
  have "sqrt (R_search * R_search) = \<bar>R_search\<bar>" by (rule real_sqrt_abs2)
  then have "sqrt (R_search * R_search) = R_search" by (simp add: R_search_def)
  then show ?thesis using \<open>0 < rng\<close> by (simp add: max_h_idx_of_def atan2_def)
qed

lemma max_v_idx_pos:
  "0 < rng \<Longrightarrow> max_v_idx_of rng = nat \<lfloor>arctan (R_search / rng) / VFOV_RESOLUTION\<rfloor>"
  by (simp add: max_v_idx_of_def atan2_def)

lemma bucket_stops_iff:
  "bucket_stops (bucket_idxs rng) \<longleftrightarrow> max_v_idx_of rng = 0 \<and> max_h_idx_of rng 0 = 0"
  by (auto simp: bucket_stops_def bucket_idxs_def list_ex_iff)

text \<open>
  If some sample from \<open>k\<close> on raises \<open>stop\<close>, the loop started at \<open>k\<close> returns: it has pushed
  the buckets up to the first such sample.
\<close>

lemma build_neigh_idxs_from:
  "bucket_stops (bucket_of_sample n) \<Longrightarrow> k \<le> n \<Longrightarrow>
   \<exists>m. build_neigh_idxs k tbl = Some (tbl @ map bucket_of_sample [k..<m + 1]) \<and> k \<le> m \<and> m \<le> n
       \<and> bucket_stops (bucket_of_sample m)
       \<and> (\<forall>s. k \<le> s \<and> s < m \<longrightarrow> \<not> bucket_stops (bucket_of_sample s))"
proof (induction "n - k" arbitrary: k tbl)
  case 0
  then have "k = n" by simp
  with 0 have "build_neigh_idxs k tbl = Some (tbl @ map bucket_of_sample [k..<k + 1])"
    by (subst build_neigh_idxs.simps) (simp add: bucket_of_sample_def)
  with 0 \<open>k = n\<close> show ?case by (intro exI[of _ k]) auto
next
  case (Suc d)
  show ?case
  proof (cases "bucket_stops (bucket_of_sample k)")
    case True
    then have "build_neigh_idxs k tbl = Some (tbl @ map bucket_of_sample [k..<k + 1])"
      by (subst build_neigh_idxs.simps) (simp add: bucket_of_sample_def)
    with True Suc.prems show ?thesis by (intro exI[of _ k]) auto
  next
    case False
    from Suc.hyps(2) have d: "d = n - (k + 1)" and le: "k + 1 \<le> n" by auto
    from Suc.hyps(1)[OF d Suc.prems(1) le, of "tbl @ [bucket_of_sample k]"]
    obtain m where m: "build_neigh_idxs (k + 1) (tbl @ [bucket_of_sample k]) =
        Some ((tbl @ [bucket_of_sample k]) @ map bucket_of_sample [k + 1..<m + 1])"
      "k + 1 \<le> m" "m \<le> n" "bucket_stops (bucket_of_sample m)"
      "\<forall>s. k + 1 \<le> s \<and> s < m \<longrightarrow> \<not> bucket_stops (bucket_of_sample s)" by blast
    have up: "[k..<m + 1] = k # [k + 1..<m + 1]" using m(2) by (simp add: upt_conv_Cons)
    have step: "build_neigh_idxs k tbl = build_neigh_idxs (k + 1) (tbl @ [bucket_of_sample k])"
      using False by (subst build_neigh_idxs.simps) (simp add: bucket_of_sample_def)
    have "build_neigh_idxs k tbl = Some (tbl @ map bucket_of_sample [k..<m + 1])"
      unfolding step m(1) up by simp
    moreover have "\<forall>s. k \<le> s \<and> s < m \<longrightarrow> \<not> bucket_stops (bucket_of_sample s)"
    proof (intro allI impI)
      fix s assume "k \<le> s \<and> s < m"
      then show "\<not> bucket_stops (bucket_of_sample s)"
        using False m(5) by (cases "s = k") auto
    qed
    ultimately show ?thesis using m(2,3,4) by (intro exI[of _ m]) auto
  qed
qed

text \<open>No sample below 489 (a range of 97.8 m) raises \<open>stop\<close>; sample 489 does.\<close>

lemma no_stop_before_489:
  assumes "s < 489"
  shows "\<not> bucket_stops (bucket_of_sample s)"
proof (cases "s = 0")
  case True
  have "1 \<le> pi / 2 / VFOV_RESOLUTION"
    using pi_ge_two by (simp add: VFOV_RESOLUTION_def field_simps)
  then have "1 \<le> \<lfloor>pi / 2 / VFOV_RESOLUTION\<rfloor>" by linarith
  then have "max_v_idx_of 0 \<noteq> 0" by (simp add: max_v_idx_of_def atan2_def R_search_def)
  with True show ?thesis by (simp add: bucket_stops_iff bucket_of_sample_def)
next
  case False
  define r where "r = real s"
  have r1: "1 \<le> r" "r \<le> 488" using False assms by (auto simp: r_def)
  then have "0 \<le> (r - 1) * (488 - r)" by simp
  then have q: "r * r \<le> 489 * r - 488" by (simp add: algebra_simps)
  define x where "x = R_search / (r * NEIGH_IDX_PREC_RANGE_RES)"
  have x: "x = 3 / r" by (simp add: x_def R_search_def NEIGH_IDX_PREC_RANGE_RES_def)
  have x0: "0 \<le> x" using r1 by (simp add: x)
  have "HFOV_RESOLUTION * (r * r + 9) \<le> 3 * r"
    using q r1 by (simp add: HFOV_RESOLUTION_def algebra_simps)
  moreover have "0 < r * r + 9" using r1 by (simp add: add_nonneg_pos)
  ultimately have "HFOV_RESOLUTION \<le> 3 * r / (r * r + 9)"
    by (simp add: pos_le_divide_eq)
  also have "3 * r / (r * r + 9) = x / (1 + x\<^sup>2)"
    using r1 by (simp add: x power2_eq_square field_simps)
  also have "\<dots> \<le> arctan x" by (rule arctan_lower[OF x0])
  finally have "1 \<le> arctan x / HFOV_RESOLUTION" by (simp add: HFOV_RESOLUTION_def field_simps)
  then have "1 \<le> \<lfloor>arctan x / HFOV_RESOLUTION\<rfloor>" by linarith
  moreover have "0 < r * NEIGH_IDX_PREC_RANGE_RES"
    using r1 by (simp add: NEIGH_IDX_PREC_RANGE_RES_def)
  ultimately have "max_h_idx_of (r * NEIGH_IDX_PREC_RANGE_RES) 0 \<noteq> 0"
    by (simp add: max_h_idx_zero x_def)
  then show ?thesis by (simp add: bucket_stops_iff bucket_of_sample_def r_def)
qed

lemma stop_at_489: "bucket_stops (bucket_of_sample 489)"
proof -
  have a: "arctan (0.6 / 97.8) \<le> (0.6/97.8 :: real)" by (rule arctan_le_self0) simp
  have b: "0 \<le> arctan (0.6/97.8 :: real)" by simp
  have "max_v_idx_of (489 / 5) = 0"
    using a b by (simp add: max_v_idx_pos R_search_def VFOV_RESOLUTION_def floor_eq_iff field_simps)
  moreover have "max_h_idx_of (489 / 5) 0 = 0"
    using a b by (simp add: max_h_idx_zero R_search_def HFOV_RESOLUTION_def floor_eq_iff field_simps)
  ultimately show ?thesis
    by (simp add: bucket_stops_iff bucket_of_sample_def NEIGH_IDX_PREC_RANGE_RES_def)
qed

lemma table_built: "build_neigh_idxs 0 [] = Some (map bucket_of_sample [0..<490])"
proof -
  from build_neigh_idxs_from[OF stop_at_489, of 0 "[]"]
  obtain m where m: "build_neigh_idxs 0 [] = Some (map bucket_of_sample [0..<m + 1])" "m \<le> 489"
    "bucket_stops (bucket_of_sample m)" by auto
  have "\<not> m < 489" using no_stop_before_489 m(3) by blast
  with m(2) have "m = 489" by simp
  with m(1) show ?thesis by simp
qed

lemma default_FeatureSelection_eq:
  "default_FeatureSelection enable =
     Some \<lparr>resolution_corners = Num 0.325, resolution_surfs = Num 0.55,
           resolution_corners_min = 0.05, resolution_corners_max = 0.6,
           resolution_surfs_min = 0.1, resolution_surfs_max = 1.0,
           features_selection_enabled = enable, features_min_count_percent = 0.3,
           corners_keep_percentile = 0.5, surfs_keep_percentile = 0.5,
           neigh_idxs_rows_cols = map bucket_of_sample [0..<490]\<rparr>"
  by (simp add: default_FeatureSelection_def FeatureSelection_new_def table_built)

lemma default_object_eq:
  "default_object enable =
     \<lparr>resolution_corners = Num 0.325, resolution_surfs = Num 0.55,
      resolution_corners_min = 0.05, resolution_corners_max = 0.6,
      resolution_surfs_min = 0.1, resolution_surfs_max = 1.0,
      features_selection_enabled = enable, features_min_count_percent = 0.3,
      corners_keep_percentile = 0.5, surfs_keep_percentile = 0.5,
      neigh_idxs_rows_cols = map bucket_of_sample [0..<490]\<rparr>"
  by (simp add: default_object_def default_FeatureSelection_eq)

text \<open>The envelope at a range of ten metres (bucket 50) has row offset 1 and, in the candidate's own row, column offset 9.\<close>

lemma arctan_006: "0.0597 \<le> arctan (0.06::real) \<and> arctan (0.06::real) \<le> 0.06"
proof -
  have "(0.06::real) / (1 + 0.06\<^sup>2) \<le> arctan 0.06" by (rule arctan_lower) simp
  moreover have "(0.0597::real) \<le> 0.06 / (1 + 0.06\<^sup>2)" by (simp add: power2_eq_square)
  moreover have "arctan (0.06::real) \<le> 0.06" by (rule arctan_le_self0) simp
  ultimately show ?thesis by linarith
qed

lemma max_v_idx_10: "max_v_idx_of 10 = 1"
proof -
  have "\<lfloor>arctan (0.06::real) / VFOV_RESOLUTION\<rfloor> = 1"
    using arctan_006 by (simp add: VFOV_RESOLUTION_def floor_eq_iff field_simps)
  then show ?thesis by (simp add: max_v_idx_pos R_search_def)
qed

lemma max_h_idx_10: "max_h_idx_of 10 0 = 9"
proof -
  have "\<lfloor>arctan (0.06::real) / HFOV_RESOLUTION\<rfloor> = 9"
    using arctan_006 by (simp add: HFOV_RESOLUTION_def floor_eq_iff field_simps)
  then show ?thesis by (simp add: max_h_idx_zero R_search_def)
qed

lemma bucket_50: "bucket_of_sample 50 = [(1, 9), (1, max_h_idx_of 10 1)]"
proof -
  have "[0..<2] = [0, Suc 0]" by (simp add: upt_rec)
  then show ?thesis
    by (simp add: bucket_of_sample_def NEIGH_IDX_PREC_RANGE_RES_def bucket_idxs_def max_v_idx_10 max_h_idx_10)
qed

lemma limits_10: "getNearestNeighborLimits (default_object e) 10 = [(1, 9), (1, max_h_idx_of 10 1)]"
  by (simp add: getNearestNeighborLimits_def default_object_eq NEIGH_IDX_PREC_RANGE_RES_def bucket_50)

lemma norm3_y [simp]: "norm3 (0, b, 0) = \<bar>b\<bar>"
  by (simp add: norm3_def)

lemma wall_scan_simps:
  "cloud_filt wall_scan = [point_at 10 0, point_at 10 0.06, point_at 10 0.18, point_at (- 10) 0]"
  "cloud_raw_width wall_scan = 1024"
  "cloud_raw_height wall_scan = 1"
  "getRowColInRawData wall_scan idx = (0, if idx = 0 then 0 else if idx = 1 then 1 else if idx = 2 then 3 else 512)"
  "getRange wall_scan idx = 10"
  by (simp_all add: wall_scan_def)

lemma xyz_point_at [simp]: "xyz (point_at a b) = (a, b, 0)"
  by (simp add: xyz_def point_at_def)

section \<open>The loops return what the closed descriptions say\<close>

lemma foldE_append:
  "foldE f (xs @ ys) s = (case foldE f xs s of Inl e \<Rightarrow> Inl e | Inr s' \<Rightarrow> foldE f ys s')"
  by (induction xs arbitrary: s) (auto split: sum.splits)

lemma foldE_concat: "foldE (\<lambda>row. foldE f row) rows s = foldE f (concat rows) s"
  by (induction rows arbitrary: s) (auto simp: foldE_append split: sum.splits)

lemma foldE_fun_upd:
  assumes "\<And>a s. a \<in> set as \<Longrightarrow> f a s = Inr (s(k := s k @ g a))"
  shows "foldE f as s = Inr (s(k := s k @ concat (map g as)))"
  using assms by (induction as arbitrary: s) auto

lemma foldE_keyed:
  assumes "\<And>a s. a \<in> set as \<Longrightarrow> f a s = Inr (s(a := s a @ g a))"
  shows "foldE f as s = Inr (\<lambda>k. s k @ concat (map g (filter (\<lambda>a. a = k) as)))"
  using assms
proof (induction as arbitrary: s)
  case Nil
  then show ?case by simp
next
  case (Cons a as)
  have "f a s = Inr (s(a := s a @ g a))" by (rule Cons.prems) simp
  then have "foldE f (a # as) s = foldE f as (s(a := s a @ g a))"
    by (simp only: foldE.simps sum.case)
  also have "\<dots> = Inr (\<lambda>k. (s(a := s a @ g a)) k @ concat (map g (filter (\<lambda>a. a = k) as)))"
    using Cons.prems by (intro Cons.IH) auto
  also have "(\<lambda>k. (s(a := s a @ g a)) k @ concat (map g (filter (\<lambda>a. a = k) as)))
      = (\<lambda>k. s k @ concat (map g (filter (\<lambda>a. a = k) (a # as))))"
    by (rule ext) auto
  finally show ?case .
qed

lemma table_dims:
  "length (buildOrderedFeatureTable ef ind) = cloud_raw_height ef"
  "i < cloud_raw_height ef \<Longrightarrow> length (buildOrderedFeatureTable ef ind ! i) = cloud_raw_width ef"
  "i < cloud_raw_height ef \<Longrightarrow> j < cloud_raw_width ef \<Longrightarrow>
     buildOrderedFeatureTable ef ind ! i ! j = ordered_cell ef ind i j"
  by (simp_all add: buildOrderedFeatureTable_def)

lemma ordered_cell_cases:
  "ordered_cell ef ind i j = - 1 \<or> (\<exists>a \<in> set (concat ind). ordered_cell ef ind i j = int a)"
proof (cases "find (\<lambda>idx. getRowColInRawData ef idx = (i, j)) (rev (concat ind))")
  case None
  then show ?thesis by (simp add: ordered_cell_def)
next
  case (Some a)
  then have "a \<in> set (rev (concat ind))" by (metis find_Some_iff nth_mem)
  then have "a \<in> set (concat ind)" by (simp only: set_rev)
  moreover have "ordered_cell ef ind i j = int a" using Some by (simp add: ordered_cell_def)
  ultimately show ?thesis by blast
qed

lemma visit_cell_forward:
  assumes valid: "\<forall>a\<in>set (concat ind). a < length (cloud_filt ef)"
    and idx: "idx < length (cloud_filt ef)"
    and i: "i < cloud_raw_height ef" and j: "j < cloud_raw_width ef"
    and rc: "getRowColInRawData ef idx = (this_r, this_c)"
  shows "visit_cell (buildOrderedFeatureTable ef ind) (cloud_filt ef) max_range idx this_r this_c i j nm
         = Inr (nm(idx := nm idx @ neighbor_of_cell ef ind max_range idx i j))"
proof -
  from ordered_cell_cases[of ef ind i j]
  consider "ordered_cell ef ind i j = - 1"
    | a where "a \<in> set (concat ind)" "ordered_cell ef ind i j = int a" by blast
  then show ?thesis
  proof cases
    case 1
    then show ?thesis
      using i j by (simp add: visit_cell_def vec_at_def bindE_def table_dims neighbor_of_cell_def)
  next
    case 2
    then have "a < length (cloud_filt ef)" using valid by blast
    then show ?thesis
      using i j 2 idx rc
      by (auto simp: visit_cell_def vec_at_def bindE_def table_dims neighbor_of_cell_def Let_def)
  qed
qed

lemma window_cols_bound: "j \<in> set (window_cols limits W r c i) \<Longrightarrow> j < W"
  by (auto simp: window_cols_def Let_def)

lemma window_rows_bound:
  "i \<in> set (window_rows limits H r) \<Longrightarrow> i < H \<and> nat \<bar>int i - int r\<bar> \<le> fst (last limits)"
  by (auto simp: window_rows_def Let_def)

lemma visit_row_forward:
  assumes valid: "\<forall>a\<in>set (concat ind). a < length (cloud_filt ef)"
    and idx: "idx < length (cloud_filt ef)"
    and i: "i \<in> set (window_rows limits (cloud_raw_height ef) this_r)"
    and ok: "limits_ok limits"
    and rc: "getRowColInRawData ef idx = (this_r, this_c)"
  shows "visit_row (buildOrderedFeatureTable ef ind) (cloud_filt ef) (cloud_raw_width ef) max_range
           limits idx this_r this_c i nm
         = Inr (nm(idx := nm idx @ concat (map (neighbor_of_cell ef ind max_range idx i)
                                       (window_cols limits (cloud_raw_width ef) this_r this_c i))))"
proof -
  from window_rows_bound[OF i] ok
  have iH: "i < cloud_raw_height ef" and dv: "nat \<bar>int i - int this_r\<bar> < length limits"
    by (auto simp: limits_ok_def)
  have "foldE (visit_cell (buildOrderedFeatureTable ef ind) (cloud_filt ef) max_range idx this_r this_c i)
          (window_cols limits (cloud_raw_width ef) this_r this_c i) nm
        = Inr (nm(idx := nm idx @ concat (map (neighbor_of_cell ef ind max_range idx i)
                                       (window_cols limits (cloud_raw_width ef) this_r this_c i))))"
    by (rule foldE_fun_upd) (simp add: visit_cell_forward[OF valid idx iH _ rc] window_cols_bound)
  then show ?thesis
    using dv by (simp add: visit_row_def vec_at_def bindE_def window_cols_def Let_def)
qed

lemma visit_candidate_forward:
  assumes valid: "\<forall>a\<in>set (concat ind). a < length (cloud_filt ef)"
    and idx: "idx < length (cloud_filt ef)"
    and ok: "limits_ok (getNearestNeighborLimits fs (getRange ef idx))"
  shows "visit_candidate fs ef (buildOrderedFeatureTable ef ind) max_range idx nm
         = Inr (nm(idx := nm idx @ window_search fs ef ind max_range idx))"
proof -
  define limits where "limits = getNearestNeighborLimits fs (getRange ef idx)"
  obtain this_r this_c where rc: "getRowColInRawData ef idx = (this_r, this_c)"
    by (cases "getRowColInRawData ef idx")
  have ne: "limits \<noteq> []" using ok by (simp add: limits_ok_def limits_def)
  have "foldE (visit_row (buildOrderedFeatureTable ef ind) (cloud_filt ef) (cloud_raw_width ef) max_range
                 limits idx this_r this_c)
          (window_rows limits (cloud_raw_height ef) this_r) nm
        = Inr (nm(idx := nm idx @ concat (map (\<lambda>i. concat (map (neighbor_of_cell ef ind max_range idx i)
                           (window_cols limits (cloud_raw_width ef) this_r this_c i)))
                   (window_rows limits (cloud_raw_height ef) this_r))))"
    by (rule foldE_fun_upd) (simp add: visit_row_forward[OF valid idx _ ok[folded limits_def] rc])
  then show ?thesis
    using ne rc
    by (simp add: visit_candidate_def window_search_def limits_def[symmetric] Let_def
        window_rows_def table_dims)
qed

lemma getNeighborsInBB_forward:
  assumes "\<forall>idx\<in>set (concat ind). idx < length (cloud_filt ef) \<and>
             limits_ok (getNearestNeighborLimits fs (getRange ef idx))"
  shows "getNeighborsInBB fs ef ind max_range
         = Inr (\<lambda>k. concat (map (window_search fs ef ind max_range) (filter (\<lambda>a. a = k) (concat ind))))"
proof -
  have valid: "\<forall>a\<in>set (concat ind). a < length (cloud_filt ef)" using assms by blast
  have "foldE (visit_candidate fs ef (buildOrderedFeatureTable ef ind) max_range) (concat ind) (\<lambda>_. [])
        = Inr (\<lambda>k. (\<lambda>_. []) k @ concat (map (window_search fs ef ind max_range)
                                      (filter (\<lambda>a. a = k) (concat ind))))"
  proof (rule foldE_keyed)
    fix a s
    assume "a \<in> set (concat ind)"
    with assms have "a < length (cloud_filt ef)"
      "limits_ok (getNearestNeighborLimits fs (getRange ef a))" by blast+
    then show "visit_candidate fs ef (buildOrderedFeatureTable ef ind) max_range a s
        = Inr (s(a := s a @ window_search fs ef ind max_range a))"
      by (rule visit_candidate_forward[OF valid])
  qed
  then show ?thesis
    by (simp add: getNeighborsInBB_def foldE_concat)
qed

lemma gradient_step_grouped:
  "nb idx \<noteq> [] \<Longrightarrow> idx < length cloud \<Longrightarrow> length gn < fc \<Longrightarrow>
   gradient_step cloud fc nb idx (gn, sa, gmax)
     = Inr (gn @ [(idx, grad_norm_of cloud (nb idx) idx)], sa, max gmax (grad_norm_of cloud (nb idx) idx))"
  by (simp add: gradient_step_def vec_at_def bindE_def grad_norm_of_def gradient_sum_def Let_def)

lemma gradient_step_standalone:
  "nb idx = [] \<Longrightarrow> length sa < fc \<Longrightarrow>
   gradient_step cloud fc nb idx (gn, sa, gmax) = Inr (gn, sa @ [idx], gmax)"
  by (simp add: gradient_step_def)

lemma gradient_fold_forward:
  assumes "\<forall>idx\<in>set all. idx < length cloud"
    and "length gn + length (grouped_indices nb all) \<le> fc"
    and "length sa + length (standalone_indices nb all) \<le> fc"
  shows "foldE (gradient_step cloud fc nb) all (gn, sa, gmax)
         = Inr (gn @ raw_gradients cloud nb all, sa @ standalone_indices nb all,
                running_max gmax (raw_gradients cloud nb all))"
  using assms
proof (induction all arbitrary: gn sa gmax)
  case Nil
  then show ?case
    by (simp add: raw_gradients_def grouped_indices_def standalone_indices_def running_max_def)
next
  case (Cons a all)
  show ?case
  proof (cases "nb a = []")
    case True
    have "gradient_step cloud fc nb a (gn, sa, gmax) = Inr (gn, sa @ [a], gmax)"
      using True Cons.prems by (intro gradient_step_standalone) (auto simp: standalone_indices_def)
    moreover have "foldE (gradient_step cloud fc nb) all (gn, sa @ [a], gmax)
         = Inr (gn @ raw_gradients cloud nb all, (sa @ [a]) @ standalone_indices nb all,
                running_max gmax (raw_gradients cloud nb all))"
      using True Cons.prems
      by (intro Cons.IH) (auto simp: standalone_indices_def grouped_indices_def)
    ultimately show ?thesis
      using True
      by (simp add: raw_gradients_def grouped_indices_def standalone_indices_def)
  next
    case False
    let ?g = "grad_norm_of cloud (nb a) a"
    have "gradient_step cloud fc nb a (gn, sa, gmax) = Inr (gn @ [(a, ?g)], sa, max gmax ?g)"
      using False Cons.prems by (intro gradient_step_grouped) (auto simp: grouped_indices_def)
    moreover have "foldE (gradient_step cloud fc nb) all (gn @ [(a, ?g)], sa, max gmax ?g)
         = Inr ((gn @ [(a, ?g)]) @ raw_gradients cloud nb all, sa @ standalone_indices nb all,
                running_max (max gmax ?g) (raw_gradients cloud nb all))"
      using False Cons.prems
      by (intro Cons.IH) (auto simp: standalone_indices_def grouped_indices_def)
    ultimately show ?thesis
      using False
      by (simp add: raw_gradients_def grouped_indices_def standalone_indices_def running_max_def)
  qed
qed

lemma length_grouped_standalone:
  "length (grouped_indices nb all) + length (standalone_indices nb all) = length all"
  unfolding grouped_indices_def standalone_indices_def
  by (induction all) auto

lemma estimateGradients_forward:
  assumes nb: "getNeighborsInBB fs ef ind r = Inr nb"
    and valid: "\<forall>idx\<in>set (concat ind). idx < length (cloud_filt ef)"
    and fc: "length (concat ind) \<le> fc"
  shows "estimateGradients fs ef fc ind r
         = Inr (gradient_statistics (raw_gradients (cloud_filt ef) nb (concat ind))
                  (standalone_indices nb (concat ind)) fc)"
proof -
  have l: "length (grouped_indices nb (concat ind)) \<le> fc"
    "length (standalone_indices nb (concat ind)) \<le> fc"
    using length_grouped_standalone[of nb "concat ind"] fc by linarith+
  have "foldE (gradient_step (cloud_filt ef) fc nb) (concat ind) ([], [], 0)
       = Inr ([] @ raw_gradients (cloud_filt ef) nb (concat ind),
              [] @ standalone_indices nb (concat ind),
              running_max 0 (raw_gradients (cloud_filt ef) nb (concat ind)))"
    using valid l by (intro gradient_fold_forward) auto
  then show ?thesis
    by (simp add: estimateGradients_def nb bindE_def foldE_concat gradient_statistics_def Let_def)
qed

lemma fill_standalone_forward:
  assumes "\<forall>idx\<in>set sa. idx < length cloud"
    and "n \<le> length sa" and "n \<le> length sel" and "n \<le> length gna"
  shows "foldE (fill_standalone cloud sa) [0..<n] (sel, gna)
         = Inr (map (\<lambda>idx. cloud ! idx) (take n sa) @ drop n sel, replicate n (Num 1) @ drop n gna)"
  using assms(2-)
proof (induction n)
  case 0
  then show ?case by simp
next
  case (Suc n)
  have n: "n < length sa" "n < length sel" "n < length gna" using Suc.prems by auto
  have v: "sa ! n < length cloud" using assms(1) n(1) by auto
  have IH: "foldE (fill_standalone cloud sa) [0..<n] (sel, gna)
         = Inr (map (\<lambda>idx. cloud ! idx) (take n sa) @ drop n sel, replicate n (Num 1) @ drop n gna)"
    using Suc.prems by (intro Suc.IH) auto
  have s1: "(map (\<lambda>idx. cloud ! idx) (take n sa) @ drop n sel)[n := cloud ! (sa ! n)]
        = map (\<lambda>idx. cloud ! idx) (take (Suc n) sa) @ drop (Suc n) sel"
    using n by (simp add: list_update_append take_Suc_conv_app_nth
        Cons_nth_drop_Suc[symmetric, of n sel])
  have s2: "(replicate n (Num 1) @ drop n gna)[n := Num 1]
        = replicate (Suc n) (Num 1) @ drop (Suc n) gna"
    using n by (simp add: list_update_append Cons_nth_drop_Suc[symmetric, of n gna]
        replicate_append_same)
  have step: "fill_standalone cloud sa n
       (map (\<lambda>idx. cloud ! idx) (take n sa) @ drop n sel, replicate n (Num 1) @ drop n gna)
      = Inr (map (\<lambda>idx. cloud ! idx) (take (Suc n) sa) @ drop (Suc n) sel,
             replicate (Suc n) (Num 1) @ drop (Suc n) gna)"
    using n v s1 s2 by (simp add: fill_standalone_def vec_at_def set_at_def bindE_def)
  show ?case
    by (simp add: foldE_append IH step del: replicate_Suc)
qed

lemma select_grouped_forward:
  assumes "\<forall>g\<in>set gs. fst g < length cloud"
    and "m + length gs \<le> length gna"
    and "k0 + length (kept_gradients gs c) \<le> length sel"
    and "n \<le> length gs"
  shows "foldE (select_grouped cloud m gs c) [0..<n] (sel, gna, k0)
         = Inr (take k0 sel @ map (\<lambda>g. cloud ! fst g) (kept_gradients (take n gs) c)
                  @ drop (k0 + length (kept_gradients (take n gs) c)) sel,
                take m gna @ map snd (take n gs) @ drop (m + n) gna,
                k0 + length (kept_gradients (take n gs) c))"
  using assms(4)
proof (induction n)
  case 0
  then show ?case by (simp add: kept_gradients_def)
next
  case (Suc n)
  have n: "n < length gs" using Suc.prems by simp
  let ?kept = "kept_gradients (take n gs) c"
  let ?sel = "take k0 sel @ map (\<lambda>g. cloud ! fst g) ?kept @ drop (k0 + length ?kept) sel"
  let ?gna = "take m gna @ map snd (take n gs) @ drop (m + n) gna"
  have IH: "foldE (select_grouped cloud m gs c) [0..<n] (sel, gna, k0)
          = Inr (?sel, ?gna, k0 + length ?kept)"
    using Suc.prems by (intro Suc.IH) auto
  have tk: "take (Suc n) gs = take n gs @ [gs ! n]" using n by (simp add: take_Suc_conv_app_nth)
  have v: "fst (gs ! n) < length cloud" using assms(1) n by auto
  have mn: "m + n < length gna" using assms(2) n by simp
  have g2: "?gna[m + n := snd (gs ! n)]
        = take m gna @ map snd (take (Suc n) gs) @ drop (m + Suc n) gna"
    using n mn by (simp add: list_update_append tk Cons_nth_drop_Suc[symmetric, of "m + n" gna]
        min_def)
  have kl: "length (kept_gradients (take (Suc n) gs) c) \<le> length (kept_gradients gs c)"
  proof -
    have "gs = take (Suc n) gs @ drop (Suc n) gs" by simp
    then have "kept_gradients gs c = kept_gradients (take (Suc n) gs) c @ kept_gradients (drop (Suc n) gs) c"
      unfolding kept_gradients_def by (metis filter_append)
    then show ?thesis by simp
  qed
  show ?case
  proof (cases "fge (snd (gs ! n)) c")
    case True
    have kk: "kept_gradients (take (Suc n) gs) c = ?kept @ [gs ! n]"
      using True by (simp add: kept_gradients_def tk)
    have kb: "k0 + length ?kept < length sel" using kl assms(3) by (simp add: kk)
    have s2: "?sel[k0 + length ?kept := cloud ! fst (gs ! n)]
        = take k0 sel @ map (\<lambda>g. cloud ! fst g) (kept_gradients (take (Suc n) gs) c)
            @ drop (k0 + length (kept_gradients (take (Suc n) gs) c)) sel"
      using kb by (simp add: list_update_append kk min_def
          Cons_nth_drop_Suc[symmetric, of "k0 + length ?kept" sel])
    have ls: "length ?sel = length sel" using kb by (simp add: min_def)
    have step: "select_grouped cloud m gs c n (?sel, ?gna, k0 + length ?kept)
        = Inr (take k0 sel @ map (\<lambda>g. cloud ! fst g) (kept_gradients (take (Suc n) gs) c)
                  @ drop (k0 + length (kept_gradients (take (Suc n) gs) c)) sel,
               take m gna @ map snd (take (Suc n) gs) @ drop (m + Suc n) gna,
               k0 + length (kept_gradients (take (Suc n) gs) c))"
      unfolding select_grouped_def
      using n v mn True kb
      by (simp add: vec_at_def set_at_def bindE_def g2[simplified] s2[simplified] ls[simplified] kk min_def)
    show ?thesis by (simp add: foldE_append IH step)
  next
    case False
    have kk: "kept_gradients (take (Suc n) gs) c = ?kept"
      using False by (simp add: kept_gradients_def tk)
    have step: "select_grouped cloud m gs c n (?sel, ?gna, k0 + length ?kept)
        = Inr (?sel, take m gna @ map snd (take (Suc n) gs) @ drop (m + Suc n) gna,
               k0 + length ?kept)"
      unfolding select_grouped_def
      using n mn False
      by (simp add: vec_at_def set_at_def bindE_def g2[simplified] min_def)
    show ?thesis by (simp add: foldE_append IH step kk)
  qed
qed

lemma length_insert_desc [simp]: "length (insert_desc a xs) = Suc (length xs)"
  by (induction xs) auto

lemma length_sort_desc [simp]: "length (sort_desc xs) = length xs"
  by (induction xs) auto

lemma set_insert_desc [simp]: "set (insert_desc a xs) = insert a (set xs)"
  by (induction xs) auto

lemma set_sort_desc [simp]: "set (sort_desc xs) = set xs"
  by (induction xs) auto

lemma count_insert_desc:
  "length (filter P (insert_desc a xs)) = length (filter P (a # xs))"
  by (induction xs) auto

lemma count_sort_desc: "length (filter P (sort_desc xs)) = length (filter P xs)"
  by (induction xs) (auto simp: count_insert_desc)

lemma resize_prefix:
  "length xs + length ys = n \<Longrightarrow> resize (xs @ ys @ zs) n d = xs @ ys"
  by (auto simp: resize_def)

lemma select_forward:
  assumes eg: "estimateGradients fs ef fc ind r = Inr (sa, gs, mean, std)"
    and ce: "cutoff_entry gs p = Inr e"
    and pos: "0 < fc"
    and v1: "\<forall>idx\<in>set sa. idx < length (cloud_filt ef)"
    and v2: "\<forall>g\<in>set gs. fst g < length (cloud_filt ef)"
    and len: "length sa + length gs \<le> fc"
  shows "selectFeaturesFromCloudByGradient fs ef fc ind r p
         = Inr (map (\<lambda>idx. cloud_filt ef ! idx) sa
                  @ map (\<lambda>g. cloud_filt ef ! fst g) (kept_gradients gs (snd e)),
                replicate (length sa) (Num 1) @ map snd gs
                  @ replicate (fc - length sa - length gs) (Num 0),
                mean, std, snd e)"
proof -
  let ?cloud = "cloud_filt ef"
  let ?kept = "kept_gradients gs (snd e)"
  have kl: "length ?kept \<le> length gs" by (simp add: kept_gradients_def)
  have f1: "foldE (fill_standalone ?cloud sa) [0..<length sa]
              (replicate fc default_point, replicate fc (Num 0))
          = Inr (map (\<lambda>idx. ?cloud ! idx) sa @ replicate (fc - length sa) default_point,
                 replicate (length sa) (Num 1) @ replicate (fc - length sa) (Num 0))"
    using fill_standalone_forward[OF v1, of "length sa" "replicate fc default_point" "replicate fc (Num 0)"] len
    by simp
  let ?sel1 = "map (\<lambda>idx. ?cloud ! idx) sa @ replicate (fc - length sa) default_point"
  let ?gna1 = "replicate (length sa) (Num 1) @ replicate (fc - length sa) (Num 0)"
  have f2: "foldE (select_grouped ?cloud (length sa) gs (snd e)) [0..<length gs]
              (?sel1, ?gna1, length sa)
          = Inr (map (\<lambda>idx. ?cloud ! idx) sa @ map (\<lambda>g. ?cloud ! fst g) ?kept
                   @ replicate (fc - length sa - length ?kept) default_point,
                 replicate (length sa) (Num 1) @ map snd gs
                   @ replicate (fc - length sa - length gs) (Num 0),
                 length sa + length ?kept)"
    using select_grouped_forward[OF v2, of "length sa" ?gna1 "length sa" "snd e" ?sel1 "length gs"]
      len kl
    by simp
  have eq: "length sa + length ?kept = fc \<Longrightarrow>
      map (\<lambda>idx. ?cloud ! idx) sa @ map (\<lambda>g. ?cloud ! fst g) ?kept
                   @ replicate (fc - length sa - length ?kept) default_point
      = map (\<lambda>idx. ?cloud ! idx) sa @ map (\<lambda>g. ?cloud ! fst g) ?kept"
    by auto
  show ?thesis
    using pos eq
    by (simp add: selectFeaturesFromCloudByGradient_def eg ce bindE_def f1 f2 resize_prefix Let_def)
qed

section \<open>The concrete scans, evaluated\<close>

lemma norm3_less_iff:
  "0 < r \<Longrightarrow> (norm3 (a, b, c) < r) = (a * a + b * b + c * c < r * r)"
proof -
  assume r: "0 < r"
  have "sqrt (r * r) = r" using r by simp
  then have "(sqrt (a * a + b * b + c * c) < r) = (sqrt (a * a + b * b + c * c) < sqrt (r * r))"
    by simp
  also have "\<dots> = (a * a + b * b + c * c < r * r)" by (rule real_sqrt_less_iff)
  finally show ?thesis by (simp add: norm3_def)
qed

lemma within_iff:
  "0 < r \<Longrightarrow> flt_less (Num (norm3 (a, b, c))) (Num r) = (a * a + b * b + c * c < r * r)"
  by (simp add: norm3_less_iff)

lemma upt_lists:
  "[0..<10] = [0,1,2,3,4,5,6,7,8,9::nat]"
  "[0..<11] = [0,1,2,3,4,5,6,7,8,9,10::nat]"
  "[0..<13] = [0,1,2,3,4,5,6,7,8,9,10,11,12::nat]"
  "[503..<522] = [503,504,505,506,507,508,509,510,511,512,513,514,515,516,517,518,519,520,521::nat]"
  "[1014..<1024] = [1014,1015,1016,1017,1018,1019,1020,1021,1022,1023::nat]"
  by code_simp+

lemma limits_ok_10: "limits_ok (getNearestNeighborLimits (default_object e) 10)"
  by (simp add: limits_10 limits_ok_def)

lemmas window_eval = window_search_def limits_10 window_rows_def window_cols_def
      neighbor_of_cell_def ordered_cell_def Let_def upt_lists within_iff

lemma wall_window:
  "window_search (default_object e) wall_scan [[0,1,2,3]] (Num 0.325) = wall_neighbors"
proof (rule ext)
  fix k
  have "window_search (default_object e) wall_scan [[0,1,2,3]] (Num 0.325) 0 = [(10, 0.06, 0), (10, 0.18, 0)]"
    by (simp add: window_eval wall_scan_simps del: norm3_y flt_less.simps)
  moreover have "window_search (default_object e) wall_scan [[0,1,2,3]] (Num 0.325) 1 = [(10, 0, 0), (10, 0.18, 0)]"
    by (simp add: window_eval wall_scan_simps del: norm3_y flt_less.simps)
  moreover have "window_search (default_object e) wall_scan [[0,1,2,3]] (Num 0.325) 2 = [(10, 0, 0), (10, 0.06, 0)]"
    by (simp add: window_eval wall_scan_simps del: norm3_y flt_less.simps)
  moreover have "k \<noteq> 0 \<Longrightarrow> k \<noteq> 1 \<Longrightarrow> k \<noteq> 2 \<Longrightarrow>
      window_search (default_object e) wall_scan [[0,1,2,3]] (Num 0.325) k = []"
    by (simp add: window_eval wall_scan_simps del: norm3_y flt_less.simps)
  ultimately show "window_search (default_object e) wall_scan [[0,1,2,3]] (Num 0.325) k = wall_neighbors k"
    by (auto simp: wall_neighbors_def)
qed

lemma wall_getNeighborsInBB:
  "getNeighborsInBB (default_object e) wall_scan [[0,1,2,3]] (Num 0.325) = Inr wall_neighbors"
proof -
  have "\<forall>idx\<in>set (concat [[0,1,2,3::nat]]). idx < length (cloud_filt wall_scan) \<and>
      limits_ok (getNearestNeighborLimits (default_object e) (getRange wall_scan idx))"
    by (simp add: wall_scan_simps limits_ok_10)
  from getNeighborsInBB_forward[OF this, of "Num 0.325"]
  have "getNeighborsInBB (default_object e) wall_scan [[0,1,2,3]] (Num 0.325)
      = Inr (\<lambda>k. concat (map wall_neighbors (filter (\<lambda>a. a = k) (concat [[0,1,2,3]]))))"
    by (simp only: wall_window)
  moreover have "(\<lambda>k. concat (map wall_neighbors (filter (\<lambda>a. a = k) (concat [[0,1,2,3]])))) = wall_neighbors"
    by (rule ext) (simp add: wall_neighbors_def)
  ultimately show ?thesis by simp
qed

lemma wall_statistics:
  "gradient_statistics (raw_gradients (cloud_filt wall_scan) wall_neighbors [0,1,2,3])
     (standalone_indices wall_neighbors [0,1,2,3]) 4
   = ([3], [(2, Num 1), (0, Num (4/5)), (1, Num (1/5))], Num (2/3), Num (sqrt (13/150)))"
  by (simp add: gradient_statistics_def raw_gradients_def grouped_indices_def standalone_indices_def
      wall_neighbors_def grad_norm_of_def gradient_sum_def running_max_def normalize_gradients_def
      wall_scan_simps)

lemma wall_estimateGradients:
  "estimateGradients (default_object e) wall_scan 4 [[0,1,2,3]] (Num 0.325)
   = Inr ([3], [(2, Num 1), (0, Num (4/5)), (1, Num (1/5))], Num (2/3), Num (sqrt (13/150)))"
proof -
  have "\<forall>idx\<in>set (concat [[0,1,2,3::nat]]). idx < length (cloud_filt wall_scan)"
    by (simp add: wall_scan_simps)
  moreover have "length (concat [[0,1,2,3::nat]]) \<le> 4" by simp
  moreover have c: "concat [[0,1,2,3::nat]] = [0,1,2,3]" by simp
  ultimately show ?thesis
    using estimateGradients_forward[OF wall_getNeighborsInBB, of 4 e]
    by (simp only: c wall_statistics)
qed

lemma scan_simps:
  "cloud_filt lonely_scan = [point_at 10 0]"
  "cloud_raw_width lonely_scan = 1024"
  "cloud_raw_height lonely_scan = 1"
  "getRowColInRawData lonely_scan idx = (0, 0)"
  "getRange lonely_scan idx = 10"
  "cloud_filt seam_scan = [point_at 10 0, point_at 10 (- 0.06)]"
  "cloud_raw_width seam_scan = 1024"
  "cloud_raw_height seam_scan = 1"
  "getRowColInRawData seam_scan idx = (0, if idx = 0 then 0 else 1023)"
  "getRange seam_scan idx = 10"
  "cloud_filt twin_scan = [point_at 10 0, point_at 10 0]"
  "cloud_raw_width twin_scan = 1024"
  "cloud_raw_height twin_scan = 1"
  "getRowColInRawData twin_scan idx = (0, if idx = 0 then 0 else 1)"
  "getRange twin_scan idx = 10"
  by (simp_all add: lonely_scan_def seam_scan_def twin_scan_def)

lemma concat_map_Nil [simp]: "concat (map (\<lambda>x. []) xs) = []"
  by (induction xs) auto

lemma lonely_getNeighborsInBB:
  "getNeighborsInBB (default_object e) lonely_scan [[0]] (Num 0.325) = Inr (\<lambda>k. [])"
proof -
  have w: "window_search (default_object e) lonely_scan [[0]] (Num 0.325) = (\<lambda>k. [])"
    by (rule ext) (simp add: window_eval scan_simps del: norm3_y flt_less.simps)
  have "\<forall>idx\<in>set (concat [[0::nat]]). idx < length (cloud_filt lonely_scan) \<and>
      limits_ok (getNearestNeighborLimits (default_object e) (getRange lonely_scan idx))"
    by (simp add: scan_simps limits_ok_10)
  from getNeighborsInBB_forward[OF this, of "Num 0.325"]
  have "getNeighborsInBB (default_object e) lonely_scan [[0]] (Num 0.325)
      = Inr (\<lambda>k. concat (map (\<lambda>k. []) (filter (\<lambda>a. a = k) (concat [[0]]))))"
    by (simp only: w)
  then show ?thesis by simp
qed

lemma lonely_estimateGradients:
  "estimateGradients (default_object e) lonely_scan 1 [[0]] (Num 0.325)
   = Inr ([0], [], NaN, Num 0)"
proof -
  have "\<forall>idx\<in>set (concat [[0::nat]]). idx < length (cloud_filt lonely_scan)"
    by (simp add: scan_simps)
  moreover have "length (concat [[0::nat]]) \<le> 1" by simp
  ultimately show ?thesis
    using estimateGradients_forward[OF lonely_getNeighborsInBB, of 1 e]
    by (simp add: gradient_statistics_def raw_gradients_def grouped_indices_def
        standalone_indices_def running_max_def normalize_gradients_def)
qed

lemma seam_getNeighborsInBB:
  "getNeighborsInBB (default_object e) seam_scan [[0, 1]] (Num 0.325) = Inr (\<lambda>k. [])"
proof -
  have w: "window_search (default_object e) seam_scan [[0, 1]] (Num 0.325) = (\<lambda>k. [])"
  proof (rule ext)
    fix k
    show "window_search (default_object e) seam_scan [[0, 1]] (Num 0.325) k = []"
      by (cases "k = 0") (simp_all add: window_eval scan_simps del: norm3_y flt_less.simps)
  qed
  have "\<forall>idx\<in>set (concat [[0, 1::nat]]). idx < length (cloud_filt seam_scan) \<and>
      limits_ok (getNearestNeighborLimits (default_object e) (getRange seam_scan idx))"
    by (simp add: scan_simps limits_ok_10)
  from getNeighborsInBB_forward[OF this, of "Num 0.325"]
  have "getNeighborsInBB (default_object e) seam_scan [[0, 1]] (Num 0.325)
      = Inr (\<lambda>k. concat (map (\<lambda>k. []) (filter (\<lambda>a. a = k) (concat [[0, 1]]))))"
    by (simp only: w)
  then show ?thesis by simp
qed

lemma seam_radius_search:
  "(10, - 0.06, 0) \<in> set (radius_search seam_scan [[0, 1]] (Num 0.325) 0)"
  by (auto simp: radius_search_def scan_simps neighbor_of_cell_def ordered_cell_def Let_def
      within_iff simp del: norm3_y flt_less.simps intro!: bexI[of _ 1023])

lemma twin_getNeighborsInBB:
  "getNeighborsInBB (default_object e) twin_scan [[0, 1]] (Num 0.325) = Inr twin_neighbors"
proof -
  have w0: "window_search (default_object e) twin_scan [[0, 1]] (Num 0.325) 0 = [(10, 0, 0)]"
    by (simp add: window_eval scan_simps del: norm3_y flt_less.simps)
  have w1: "window_search (default_object e) twin_scan [[0, 1]] (Num 0.325) 1 = [(10, 0, 0)]"
    by (simp add: window_eval scan_simps del: norm3_y flt_less.simps)
  have "\<forall>idx\<in>set (concat [[0, 1::nat]]). idx < length (cloud_filt twin_scan) \<and>
      limits_ok (getNearestNeighborLimits (default_object e) (getRange twin_scan idx))"
    by (simp add: scan_simps limits_ok_10)
  note getNeighborsInBB_forward[OF this, of "Num 0.325"]
  moreover have "(\<lambda>k. concat (map (window_search (default_object e) twin_scan [[0, 1]] (Num 0.325))
                     (filter (\<lambda>a. a = k) (concat [[0, 1]])))) = twin_neighbors"
  proof (rule ext)
    fix k :: nat
    consider "k = 0" | "k = 1" | "k \<noteq> 0 \<and> k \<noteq> 1" by blast
    then show "concat (map (window_search (default_object e) twin_scan [[0, 1]] (Num 0.325))
                     (filter (\<lambda>a. a = k) (concat [[0, 1]]))) = twin_neighbors k"
    proof cases
      case 1
      then show ?thesis using w0 by (simp add: twin_neighbors_def)
    next
      case 2
      then show ?thesis using w1 by (simp add: twin_neighbors_def)
    next
      case 3
      then show ?thesis by (simp add: twin_neighbors_def)
    qed
  qed
  ultimately show ?thesis by (simp only:)
qed

lemma twin_estimateGradients:
  "estimateGradients (default_object e) twin_scan 2 [[0, 1]] (Num 0.325)
   = Inr ([], [(0, NaN), (1, NaN)], NaN, NaN)"
proof -
  have "\<forall>idx\<in>set (concat [[0, 1::nat]]). idx < length (cloud_filt twin_scan)"
    by (simp add: scan_simps)
  moreover have "length (concat [[0, 1::nat]]) \<le> 2" by simp
  ultimately show ?thesis
    using estimateGradients_forward[OF twin_getNeighborsInBB, of 2 e]
    by (simp add: gradient_statistics_def raw_gradients_def grouped_indices_def
        standalone_indices_def running_max_def normalize_gradients_def twin_neighbors_def
        grad_norm_of_def gradient_sum_def scan_simps)
qed

lemma limits_101: "getNearestNeighborLimits (default_object e) 101 = []"
  by (simp add: getNearestNeighborLimits_def default_object_eq NEIGH_IDX_PREC_RANGE_RES_def)

lemma far_getNeighborsInBB:
  "getNeighborsInBB (default_object e) far_scan [[0]] (Num 0.325) = Inl EmptyBack"
  by (simp add: getNeighborsInBB_def visit_candidate_def limits_101 far_scan_def)

lemma default_object_simps:
  "features_selection_enabled (default_object e) = e"
  "resolution_corners (default_object e) = Num 0.325"
  "resolution_surfs (default_object e) = Num 0.55"
  "corners_keep_percentile (default_object e) = 0.5"
  "surfs_keep_percentile (default_object e) = 0.5"
  by (simp_all add: default_object_eq)

lemma select_fault:
  "0 < fc \<Longrightarrow> estimateGradients fs ef fc ind r = Inl e \<Longrightarrow>
   selectFeaturesFromCloudByGradient fs ef fc ind r p = Inl e"
  by (simp add: selectFeaturesFromCloudByGradient_def bindE_def)

lemma select_cutoff_fault:
  "0 < fc \<Longrightarrow> estimateGradients fs ef fc ind r = Inr (sa, gs, mean, std) \<Longrightarrow>
   cutoff_entry gs p = Inl e \<Longrightarrow>
   selectFeaturesFromCloudByGradient fs ef fc ind r p = Inl e"
  by (simp add: selectFeaturesFromCloudByGradient_def bindE_def)

lemma selectFeatures_corner_fault:
  "features_selection_enabled fs \<Longrightarrow>
   selectFeaturesFromCloudByGradient fs ef (corner_points_less_sharp_count ef)
     (indices_corners_less_sharp ef) (resolution_corners fs) (corners_keep_percentile fs) = Inl e \<Longrightarrow>
   selectFeatures fs ef = Inl e"
  by (simp add: selectFeatures_def bindE_def)

lemma window_subset_radius:
  "set (window_search fs ef ind r idx) \<subseteq> set (radius_search ef ind r idx)"
proof
  fix q assume "q \<in> set (window_search fs ef ind r idx)"
  then obtain i j where i: "i \<in> set (window_rows (getNearestNeighborLimits fs (getRange ef idx))
                                  (cloud_raw_height ef) (fst (getRowColInRawData ef idx)))"
    and j: "j \<in> set (window_cols (getNearestNeighborLimits fs (getRange ef idx)) (cloud_raw_width ef)
                      (fst (getRowColInRawData ef idx)) (snd (getRowColInRawData ef idx)) i)"
    and q: "q \<in> set (neighbor_of_cell ef ind r idx i j)"
    by (auto simp: window_search_def Let_def)
  have "i < cloud_raw_height ef" using window_rows_bound[OF i] by simp
  moreover have "j < cloud_raw_width ef" using window_cols_bound[OF j] .
  ultimately show "q \<in> set (radius_search ef ind r idx)"
    using q by (fastforce simp: radius_search_def)
qed

lemma limits_ok_default:
  assumes "0 \<le> d" and "d < 98"
  shows "limits_ok (getNearestNeighborLimits (default_object e) d)"
proof -
  define s where "s = nat \<lfloor>d / NEIGH_IDX_PREC_RANGE_RES\<rfloor>"
  have "d / NEIGH_IDX_PREC_RANGE_RES < 490"
    using assms by (simp add: NEIGH_IDX_PREC_RANGE_RES_def)
  then have "\<lfloor>d / NEIGH_IDX_PREC_RANGE_RES\<rfloor> < 490" by linarith
  then have s: "s < 490" unfolding s_def by linarith
  then have "getNearestNeighborLimits (default_object e) d = bucket_of_sample s"
    by (simp add: getNearestNeighborLimits_def default_object_eq s_def[symmetric])
  moreover have "limits_ok (bucket_of_sample s)"
    by (simp add: limits_ok_def bucket_of_sample_def bucket_idxs_def last_map)
  ultimately show ?thesis by simp
qed

lemma wall_select:
  "selectFeaturesFromCloudByGradient (default_object e) wall_scan 4 [[0, 1, 2, 3]] (Num 0.325) 0.5
     = Inr ([point_at (- 10) 0, point_at 10 0.18, point_at 10 0],
            [Num 1, Num 1, Num (4/5), Num (1/5)], Num (2/3), Num (sqrt (13/150)), Num (4/5))"
proof -
  have ce: "cutoff_entry [(2, Num 1), (0, Num (4/5)), (1, Num (1/5))] 0.5 = Inr (0, Num (4/5))"
    by (simp add: cutoff_entry_def vec_at_def)
  have "selectFeaturesFromCloudByGradient (default_object e) wall_scan 4 [[0, 1, 2, 3]] (Num 0.325) 0.5
     = Inr (map (\<lambda>idx. cloud_filt wall_scan ! idx) [3]
              @ map (\<lambda>g. cloud_filt wall_scan ! fst g)
                  (kept_gradients [(2, Num 1), (0, Num (4/5)), (1, Num (1/5))] (snd (0::nat, Num (4/5)))),
            replicate (length [3::nat]) (Num 1) @ map snd [(2::nat, Num 1), (0, Num (4/5)), (1, Num (1/5))]
              @ replicate (4 - length [3::nat] - length [(2::nat, Num 1), (0, Num (4/5)), (1, Num (1/5))]) (Num 0),
            Num (2/3), Num (sqrt (13/150)), snd (0::nat, Num (4/5)))"
    by (rule select_forward[OF wall_estimateGradients ce]) (simp_all add: wall_scan_simps)
  then show ?thesis by (simp add: kept_gradients_def wall_scan_simps)
qed

lemma wall_scan_batches:
  "corner_points_less_sharp_count wall_scan = 4"
  "indices_corners_less_sharp wall_scan = [[0, 1, 2, 3]]"
  "surf_points_less_flat_count wall_scan = 0"
  by (simp_all add: wall_scan_def)

lemma wall_selectFeatures:
  "resolutions_after (selectFeatures (default_object True) wall_scan) = Inr (Num 0.49, Num (- 0.8))"
proof -
  have c: "selectFeaturesFromCloudByGradient (default_object True) wall_scan
       (corner_points_less_sharp_count wall_scan) (indices_corners_less_sharp wall_scan)
       (resolution_corners (default_object True)) (corners_keep_percentile (default_object True))
     = Inr ([point_at (- 10) 0, point_at 10 0.18, point_at 10 0],
            [Num 1, Num 1, Num (4/5), Num (1/5)], Num (2/3), Num (sqrt (13/150)), Num (4/5))"
    using wall_select[of True] by (simp add: wall_scan_batches default_object_simps)
  have s: "selectFeaturesFromCloudByGradient (default_object True) wall_scan
       (surf_points_less_flat_count wall_scan) (indices_surfs_less_flat wall_scan)
       (resolution_surfs (default_object True)) (surfs_keep_percentile (default_object True))
     = Inr ([], [], Num (- 1), Num (- 1), Num (- 1))"
    by (simp add: selectFeaturesFromCloudByGradient_def wall_scan_batches)
  have en: "features_selection_enabled (default_object True)" by (simp add: default_object_simps)
  show ?thesis
    unfolding selectFeatures_def Let_def c s bindE_def
    using en by (simp add: resolutions_after_def estimateResolution_def default_object_eq)
qed

section \<open>Gradients and their normalisation\<close>

lemma norm3_nonneg: "0 \<le> norm3 v"
  by (cases v) (simp add: norm3_def)

lemma norm3_scale: "0 < n \<Longrightarrow> norm3 (vscale_div v n) = norm3 v / n"
proof (cases v)
  case (fields a b c)
  assume n: "0 < n"
  have "(a / n) * (a / n) + (b / n) * (b / n) + (c / n) * (c / n) = (a * a + b * b + c * c) / (n * n)"
    by (simp add: add_divide_distrib)
  moreover have "sqrt ((a * a + b * b + c * c) / (n * n)) = sqrt (a * a + b * b + c * c) / n"
    using n by (simp add: real_sqrt_divide)
  ultimately show ?thesis by (simp add: fields norm3_def)
qed

lemma foldl_max_ge: "(m::real) \<le> foldl max m xs"
  by (induction xs arbitrary: m) (auto intro: order_trans[OF max.cobounded1])

lemma foldl_max_ge_elem: "x \<in> set xs \<Longrightarrow> (x::real) \<le> foldl max m xs"
proof (induction xs arbitrary: m)
  case Nil
  then show ?case by simp
next
  case (Cons a xs)
  then show ?case
    using foldl_max_ge[of "max m a" xs] by auto
qed

lemma foldl_max_mem: "foldl max (m::real) xs = m \<or> foldl max m xs \<in> set xs"
proof (induction xs arbitrary: m)
  case Nil
  then show ?case by simp
next
  case (Cons a xs)
  from Cons.IH[of "max m a"] show ?case by (auto simp: max_def split: if_splits)
qed

lemma normalize_gradients_pos:
  "M \<noteq> 0 \<Longrightarrow> normalize_gradients gs M = map (\<lambda>e. (fst e, Num (snd e / M))) gs"
  by (simp add: normalize_gradients_def case_prod_beta)

lemma count_distinct: "distinct xs \<Longrightarrow> x \<in> set xs \<Longrightarrow> length (filter (\<lambda>y. y = x) xs) = 1"
proof (induction xs)
  case Nil
  then show ?case by simp
next
  case (Cons a xs)
  show ?case
  proof (cases "a = x")
    case True
    then have "x \<notin> set xs" using Cons.prems by simp
    then have "filter (\<lambda>y. y = x) xs = []" by (auto simp: filter_empty_conv)
    with True show ?thesis by simp
  next
    case False
    then show ?thesis using Cons by simp
  qed
qed

lemma grad_norm_of_eq:
  "nbs \<noteq> [] \<Longrightarrow> grad_norm_of cloud nbs idx = norm3 (gradient_sum cloud nbs idx) / real (length nbs)"
  by (simp add: grad_norm_of_def norm3_scale)

lemma wall_raw:
  "raw_gradients (cloud_filt wall_scan) wall_neighbors (concat [[0, 1, 2, 3]])
     = [(0, 3/25), (1, 3/100), (2, 3/20)]"
  by (simp add: raw_gradients_def grouped_indices_def wall_neighbors_def grad_norm_of_def
      gradient_sum_def wall_scan_simps)

section \<open>Claims\<close>

text \<open>
  C9. The table-construction loop of the constructor terminates after finitely many range
  buckets: there is a bucket index \<open>n\<close> (at most 500) at which \<open>max_v_idx\<close> is 0 and
  \<open>max_h_idx\<close> for row offset 0 is 0; there the loop stops, having pushed the buckets
  of the samples \<open>0, \<dots>, n\<close>.
\<close>

theorem table_construction_terminates:
  "\<exists>n tbl. build_neigh_idxs 0 [] = Some tbl \<and> n \<le> 500 \<and> length tbl = n + 1
      \<and> max_v_idx_of (real n * NEIGH_IDX_PREC_RANGE_RES) = 0
      \<and> max_h_idx_of (real n * NEIGH_IDX_PREC_RANGE_RES) 0 = 0
      \<and> tbl = map (\<lambda>s. bucket_idxs (real s * NEIGH_IDX_PREC_RANGE_RES)) [0..<n + 1]"
proof -
  from build_neigh_idxs_from[OF stop_at_489, of 0 "[]"]
  obtain m where m: "build_neigh_idxs 0 [] = Some (map bucket_of_sample [0..<m + 1])" "m \<le> 489"
    "bucket_stops (bucket_of_sample m)" by auto
  show ?thesis
    using m by (intro exI[of _ m] exI[of _ "map bucket_of_sample [0..<m + 1]"])
               (simp add: bucket_of_sample_def[abs_def] bucket_stops_iff)
qed

text \<open>
  C10. During the construction, for every range bucket \<open>s\<close> and every row offset
  \<open>i \<le> max_v_idx\<close>, the value \<open>k = range * tan (i * VFOV_RESOLUTION)\<close> lies between 0 and
  \<open>R\<close>, so the argument \<open>R * R - k * k\<close> of \<open>sqrt\<close> is non-negative, and the two quotients
  that are floored and stored as unsigned integers are non-negative.
\<close>

theorem sqrt_argument_nonnegative:
  assumes "i \<le> max_v_idx_of (real s * NEIGH_IDX_PREC_RANGE_RES)"
  shows "0 \<le> k_of (real s * NEIGH_IDX_PREC_RANGE_RES) i \<and>
         k_of (real s * NEIGH_IDX_PREC_RANGE_RES) i \<le> R_search \<and>
         0 \<le> R_search * R_search
               - k_of (real s * NEIGH_IDX_PREC_RANGE_RES) i * k_of (real s * NEIGH_IDX_PREC_RANGE_RES) i \<and>
         0 \<le> atan2 (sqrt (R_search * R_search
               - k_of (real s * NEIGH_IDX_PREC_RANGE_RES) i * k_of (real s * NEIGH_IDX_PREC_RANGE_RES) i))
                (real s * NEIGH_IDX_PREC_RANGE_RES) / HFOV_RESOLUTION \<and>
         0 \<le> atan2 R_search (real s * NEIGH_IDX_PREC_RANGE_RES) / VFOV_RESOLUTION"
proof -
  define rng where "rng = real s * NEIGH_IDX_PREC_RANGE_RES"
  have rng0: "0 \<le> rng" by (simp add: rng_def NEIGH_IDX_PREC_RANGE_RES_def)
  have at0: "0 \<le> atan2 y rng" if "0 \<le> y" for y
    using that rng0 by (auto simp: atan2_def)
  have k: "0 \<le> k_of rng i \<and> k_of rng i \<le> R_search \<and> k_of rng i * k_of rng i \<le> R_search * R_search"
  proof (cases "s = 0")
    case True
    then show ?thesis by (simp add: rng_def k_of_def R_search_def)
  next
    case False
    have rng: "0 < rng" using False by (simp add: rng_def NEIGH_IDX_PREC_RANGE_RES_def)
    define a where "a = arctan (R_search / rng)"
    have a0: "0 \<le> a" using rng by (simp add: a_def R_search_def)
    have a1: "a < pi / 2" unfolding a_def by (rule arctan_ubound)
    have V: "0 < VFOV_RESOLUTION" by (simp add: VFOV_RESOLUTION_def)
    have mv: "max_v_idx_of rng = nat \<lfloor>a / VFOV_RESOLUTION\<rfloor>"
      using rng by (simp add: max_v_idx_pos a_def)
    have fl: "0 \<le> \<lfloor>a / VFOV_RESOLUTION\<rfloor>" using a0 V by simp
    have "i \<le> nat \<lfloor>a / VFOV_RESOLUTION\<rfloor>" using assms mv by (simp add: rng_def)
    with fl have "int i \<le> \<lfloor>a / VFOV_RESOLUTION\<rfloor>" by linarith
    then have "real i \<le> a / VFOV_RESOLUTION" by linarith
    then have iv: "real i * VFOV_RESOLUTION \<le> a" using V by (simp add: field_simps)
    have iv0: "0 \<le> real i * VFOV_RESOLUTION" using V by simp
    have "tan (real i * VFOV_RESOLUTION) \<le> tan a"
      using iv iv0 a1 by (intro tan_mono_le) auto
    then have t1: "tan (real i * VFOV_RESOLUTION) \<le> R_search / rng"
      by (simp add: a_def tan_arctan)
    have t0: "0 \<le> tan (real i * VFOV_RESOLUTION)"
      using iv iv0 a1 by (intro tan_pos_pi2_le) auto
    have k0: "0 \<le> k_of rng i" using rng t0 by (simp add: k_of_def)
    have k1: "k_of rng i \<le> R_search" using rng t1 by (simp add: k_of_def field_simps)
    have "k_of rng i * k_of rng i \<le> R_search * R_search"
      using k0 k1 by (intro mult_mono) auto
    with k0 k1 show ?thesis by simp
  qed
  then have "0 \<le> sqrt (R_search * R_search - k_of rng i * k_of rng i)" by simp
  then have "0 \<le> atan2 (sqrt (R_search * R_search - k_of rng i * k_of rng i)) rng / HFOV_RESOLUTION"
    using at0 by (simp add: HFOV_RESOLUTION_def)
  moreover have "0 \<le> atan2 R_search rng / VFOV_RESOLUTION"
    using at0[of R_search] by (simp add: VFOV_RESOLUTION_def R_search_def)
  ultimately show ?thesis using k by (simp add: rng_def)
qed

theorem sqrt_argument_nonnegative_witness:
  "(1::nat) \<le> max_v_idx_of (real (0::nat) * NEIGH_IDX_PREC_RANGE_RES) \<and>
   0 \<le> R_search * R_search
        - k_of (real (0::nat) * NEIGH_IDX_PREC_RANGE_RES) 1 * k_of (real (0::nat) * NEIGH_IDX_PREC_RANGE_RES) 1"
proof -
  have "1 \<le> pi / 2 / VFOV_RESOLUTION"
    using pi_ge_two by (simp add: VFOV_RESOLUTION_def field_simps)
  then have "1 \<le> \<lfloor>pi / 2 / VFOV_RESOLUTION\<rfloor>" by linarith
  then have "max_v_idx_of 0 \<noteq> 0" by (simp add: max_v_idx_of_def atan2_def R_search_def)
  then have h: "(1::nat) \<le> max_v_idx_of (real (0::nat) * NEIGH_IDX_PREC_RANGE_RES)"
    by simp
  show ?thesis using h sqrt_argument_nonnegative [OF h] by simp
qed

text \<open>
  C8. When feature selection is disabled by configuration, \<open>selectFeatures\<close> returns the
  input corner and surface batches unmodified together with the last-known resolutions,
  and leaves the object, hence its two persistent resolutions, unchanged.
\<close>

theorem selectFeatures_disabled:
  "\<not> features_selection_enabled fs \<Longrightarrow>
   selectFeatures fs ef =
     Inr ((getLessSharpCorners ef, getLessFlatSurfs ef, resolution_corners fs, resolution_surfs fs),
          fs, diag_msg_in fs ef)"
  by (simp add: selectFeatures_def)

theorem selectFeatures_disabled_witness:
  "\<not> features_selection_enabled (default_object False) \<and>
   selectFeatures (default_object False) wall_scan =
     Inr (([point_at 10 0, point_at 10 0.06, point_at 10 0.18, point_at (- 10) 0], [],
           Num 0.325, Num 0.55),
          default_object False, diag_msg_in (default_object False) wall_scan)"
proof -
  have h: "\<not> features_selection_enabled (default_object False)"
    by (simp add: default_object_eq)
  show ?thesis
    using h selectFeatures_disabled [OF h, of wall_scan]
    by (simp add: wall_scan_def default_object_eq)
qed

text \<open>
  C4, at inputs where the code leaves the bounds: selection enabled, default bounds
  (corners 0.05 to 0.6, surfaces 0.1 to 1.0). For a scan whose corner and surface batches
  are both empty, both cut-offs are the sentinel \<open>-1\<close>, and the call leaves the
  resolutions at \<open>0.05 - 0.55 = -0.5\<close> and \<open>0.1 - 0.9 = -0.8\<close>, below their minima. For
  \<open>wall_scan\<close>, with four corner features and no surface feature, the corner resolution
  becomes \<open>0.05 + 0.8 * 0.55 = 0.49\<close>, within its bounds, and the surface resolution
  \<open>-0.8\<close>.
\<close>

theorem selectFeatures_empty_batch_resolutions:
  "resolutions_after (selectFeatures (default_object True) empty_scan)
     = Inr (Num (- 0.5), Num (- 0.8)) \<and>
   resolutions_after (selectFeatures (default_object True) wall_scan)
     = Inr (Num 0.49, Num (- 0.8)) \<and>
   resolution_corners_min (default_object True) = 0.05 \<and>
   resolution_surfs_min (default_object True) = 0.1"
proof -
  have "resolutions_after (selectFeatures (default_object True) empty_scan)
     = Inr (Num (- 0.5), Num (- 0.8))"
    by (simp add: resolutions_after_def selectFeatures_def selectFeaturesFromCloudByGradient_def
        estimateResolution_def bindE_def empty_scan_def default_object_eq)
  moreover have "resolution_corners_min (default_object True) = 0.05"
    "resolution_surfs_min (default_object True) = 0.1"
    by (simp_all add: default_object_eq)
  ultimately show ?thesis by (simp only: wall_selectFeatures simp_thms)
qed

text \<open>
  C3, at an input where the code faults: a feature at a range of 101 m, with the default
  object. \<open>getNearestNeighborLimits\<close> returns the empty envelope, as the claim says; the
  search then calls \<open>back()\<close> on it, which is undefined behaviour, instead of treating the
  point as one without neighbours.
\<close>

theorem beyond_table_faults:
  "getNearestNeighborLimits (default_object True) 101 = [] \<and>
   getNeighborsInBB (default_object True) far_scan [[0]] (Num 0.325) = Inl EmptyBack \<and>
   selectFeatures (default_object True) far_scan = Inl EmptyBack"
proof -
  have "estimateGradients (default_object True) far_scan 1 [[0]] (Num 0.325) = Inl EmptyBack"
    by (simp only: estimateGradients_def far_getNeighborsInBB bindE_def sum.case)
  then have "selectFeaturesFromCloudByGradient (default_object True) far_scan 1 [[0]] (Num 0.325) 0.5
      = Inl EmptyBack"
    by (intro select_fault) simp_all
  then have "selectFeatures (default_object True) far_scan = Inl EmptyBack"
    by (intro selectFeatures_corner_fault) (simp_all add: default_object_simps far_scan_def)
  then show ?thesis by (simp only: limits_101 far_getNeighborsInBB simp_thms)
qed

text \<open>
  C2, at inputs where the index of the cut-off is out of range: a batch whose only feature
  is standalone (the ranking is empty, \<open>N = 0\<close>, and \<open>at(0)\<close> throws), also through
  \<open>selectFeatures\<close> with the default percentile; and a batch with three grouped features
  and the percentile 1.0 (\<open>at(3)\<close> throws). The index is not clamped.
\<close>

theorem cutoff_index_unguarded:
  "selectFeaturesFromCloudByGradient (default_object True) lonely_scan 1 [[0]] (Num 0.325) 0.5
     = Inl OutOfRange \<and>
   selectFeatures (default_object True) lonely_scan = Inl OutOfRange \<and>
   selectFeaturesFromCloudByGradient (default_object True) wall_scan 4 [[0, 1, 2, 3]] (Num 0.325) 1
     = Inl OutOfRange"
proof -
  have a: "selectFeaturesFromCloudByGradient (default_object True) lonely_scan 1 [[0]] (Num 0.325) 0.5
      = Inl OutOfRange"
    by (rule select_cutoff_fault[OF _ lonely_estimateGradients])
       (simp_all add: cutoff_entry_def vec_at_def)
  then have b: "selectFeatures (default_object True) lonely_scan = Inl OutOfRange"
    by (intro selectFeatures_corner_fault) (simp_all add: default_object_simps lonely_scan_def)
  have c: "selectFeaturesFromCloudByGradient (default_object True) wall_scan 4 [[0, 1, 2, 3]]
      (Num 0.325) 1 = Inl OutOfRange"
    by (rule select_cutoff_fault[OF _ wall_estimateGradients])
       (simp_all add: cutoff_entry_def vec_at_def)
  show ?thesis by (simp only: a b c simp_thms)
qed

text \<open>
  C5, at an input where the returned deviation is not the population standard deviation
  of the grouped features: in \<open>wall_scan\<close> three features are grouped and one is
  standalone; the sum of squared deviations is divided by the feature count 4, not by
  the grouped count 3.
\<close>

theorem std_divides_by_feature_count:
  "estimateGradients (default_object True) wall_scan 4 [[0, 1, 2, 3]] (Num 0.325)
     = Inr ([3], [(2, Num 1), (0, Num (4/5)), (1, Num (1/5))], Num (2/3), Num (sqrt (13/150))) \<and>
   population_std [Num 1, Num (4/5), Num (1/5)] = Num (sqrt (26/225)) \<and>
   sqrt (13/150) \<noteq> sqrt (26/225)"
proof -
  have "population_std [Num 1, Num (4/5), Num (1/5)] = Num (sqrt (26/225))"
    by (simp add: population_std_def)
  moreover have "sqrt (13/150) \<noteq> sqrt (26/225)" by simp
  ultimately show ?thesis by (simp only: wall_estimateGradients simp_thms)
qed

text \<open>
  C1 as stated fails: in \<open>seam_scan\<close> the feature in bin 1023 lies 6 cm from the feature in
  bin 0, well inside the search radius, and the exhaustive search finds it; the window of
  the feature in bin 0 is clipped at column 0 and \<open>getNeighborsInBB\<close> returns no neighbour
  for it.
\<close>

theorem seam_neighbor_missed:
  "neighbors_found (getNeighborsInBB (default_object True) seam_scan [[0, 1]] (Num 0.325)) 0 = Inr [] \<and>
   (10, - 0.06, 0) \<in> set (radius_search seam_scan [[0, 1]] (Num 0.325) 0)"
proof -
  have "neighbors_found (getNeighborsInBB (default_object True) seam_scan [[0, 1]] (Num 0.325)) 0 = Inr []"
    by (simp only: seam_getNeighborsInBB neighbors_found_def sum.case)
  then show ?thesis using seam_radius_search by (simp only: simp_thms)
qed

text \<open>
  C1, amended. For every scan grid whose candidates index into the filtered cloud and
  have a readable envelope (for the constructed table: a range below 98 m, lemma
  \<open>limits_ok_default\<close>), \<open>getNeighborsInBB\<close> returns, and the neighbour set of every
  candidate is exactly the result of the exhaustive Euclidean search restricted to the
  cells of the candidate's clipped window (own cell excluded, distance strictly below the
  search radius); it is a subset of the result of the exhaustive search over the grid.
\<close>

theorem neighbors_are_window_search:
  assumes "\<forall>idx\<in>set (concat indices_in_filt). idx < length (cloud_filt ef) \<and>
             limits_ok (getNearestNeighborLimits fs (getRange ef idx))"
  shows "\<exists>nm. getNeighborsInBB fs ef indices_in_filt max_range = Inr nm \<and>
           (\<forall>idx\<in>set (concat indices_in_filt).
              set (nm idx) = set (window_search fs ef indices_in_filt max_range idx) \<and>
              set (nm idx) \<subseteq> set (radius_search ef indices_in_filt max_range idx))"
proof -
  let ?nm = "\<lambda>k. concat (map (window_search fs ef indices_in_filt max_range)
                       (filter (\<lambda>a. a = k) (concat indices_in_filt)))"
  have r: "getNeighborsInBB fs ef indices_in_filt max_range = Inr ?nm"
    by (rule getNeighborsInBB_forward[OF assms])
  have "set (?nm idx) = set (window_search fs ef indices_in_filt max_range idx)"
    if "idx \<in> set (concat indices_in_filt)" for idx
  proof -
    have "set (filter (\<lambda>a. a = idx) (concat indices_in_filt)) = {idx}" using that by auto
    then show ?thesis by (simp only: set_concat set_map) simp
  qed
  then show ?thesis using r window_subset_radius by (intro exI[of _ ?nm]) auto
qed

theorem neighbors_are_window_search_witness:
  "limits_ok (getNearestNeighborLimits (default_object True) 10) \<and>
   (\<exists>nm. getNeighborsInBB (default_object True) wall_scan [[0, 1, 2, 3]] (Num 0.325) = Inr nm \<and>
      set (nm 0) = {(10, 0.06, 0), (10, 0.18, 0)} \<and>
      set (nm 0) \<subseteq> set (radius_search wall_scan [[0, 1, 2, 3]] (Num 0.325) 0))"
proof -
  have ok: "limits_ok (getNearestNeighborLimits (default_object True) 10)"
    by (rule limits_ok_default) simp_all
  have h: "\<forall>idx\<in>set (concat [[0, 1, 2, 3::nat]]). idx < length (cloud_filt wall_scan) \<and>
      limits_ok (getNearestNeighborLimits (default_object True) (getRange wall_scan idx))"
    using ok by (simp add: wall_scan_simps)
  from neighbors_are_window_search[OF h, of "Num 0.325"]
  obtain nm where nm: "getNeighborsInBB (default_object True) wall_scan [[0, 1, 2, 3]] (Num 0.325) = Inr nm"
    "set (nm 0) = set (window_search (default_object True) wall_scan [[0, 1, 2, 3]] (Num 0.325) 0)"
    "set (nm 0) \<subseteq> set (radius_search wall_scan [[0, 1, 2, 3]] (Num 0.325) 0)"
    by auto
  have "set (nm 0) = {(10, 0.06, 0), (10, 0.18, 0)}"
    unfolding nm(2) wall_window by (simp add: wall_neighbors_def)
  with ok nm(1,3) show ?thesis by blast
qed

text \<open>
  C6. For every non-empty batch whose candidates index into the filtered cloud, have a
  readable envelope and fit into \<open>features_count\<close>, and for which the cut-off is obtained
  from the sorted ranking, \<open>selectFeaturesFromCloudByGradient\<close> returns; its output cloud
  consists of the points of all standalone features (those without a neighbour), each
  entered with the synthetic normalised gradient 1.0, followed by the points of all
  grouped features whose normalised gradient is at least the cut-off; its size is the
  number of standalone features plus the number of such grouped features, hence at least
  the number of standalone features; and every retained point is the point of the
  filtered cloud at the feature's index, position and intensity unmodified.
\<close>

theorem selected_output:
  assumes pos: "0 < features_count"
    and len: "length (concat indices_in_filt) \<le> features_count"
    and valid: "\<forall>idx\<in>set (concat indices_in_filt). idx < length (cloud_filt ef) \<and>
             limits_ok (getNearestNeighborLimits fs (getRange ef idx))"
    and eg: "estimateGradients fs ef features_count indices_in_filt search_radius
             = Inr (standalone, gradients, mean, std)"
    and ce: "cutoff_entry gradients percentile = Inr entry"
  shows "\<exists>selected gradient_norms_all nb.
      selectFeaturesFromCloudByGradient fs ef features_count indices_in_filt search_radius percentile
        = Inr (selected, gradient_norms_all, mean, std, snd entry) \<and>
      getNeighborsInBB fs ef indices_in_filt search_radius = Inr nb \<and>
      standalone = standalone_indices nb (concat indices_in_filt) \<and>
      set (map fst gradients) = set (grouped_indices nb (concat indices_in_filt)) \<and>
      selected = map (\<lambda>idx. cloud_filt ef ! idx) standalone
                 @ map (\<lambda>g. cloud_filt ef ! fst g) (kept_gradients gradients (snd entry)) \<and>
      length selected = length standalone + length (kept_gradients gradients (snd entry)) \<and>
      length standalone \<le> length selected \<and>
      gradient_norms_all = replicate (length standalone) (Num 1) @ map snd gradients
                 @ replicate (features_count - length standalone - length gradients) (Num 0) \<and>
      (\<forall>idx\<in>set standalone. idx < length (cloud_filt ef)) \<and>
      (\<forall>g\<in>set gradients. fst g < length (cloud_filt ef))"
proof -
  define all where "all = concat indices_in_filt"
  obtain nb where nb: "getNeighborsInBB fs ef indices_in_filt search_radius = Inr nb"
    using getNeighborsInBB_forward[OF valid] by blast
  have v: "\<forall>idx\<in>set (concat indices_in_filt). idx < length (cloud_filt ef)" using valid by blast
  define raw where "raw = raw_gradients (cloud_filt ef) nb all"
  have "Inr (standalone, gradients, mean, std)
      = (Inr (gradient_statistics raw (standalone_indices nb all) features_count)
          :: fault + (nat list \<times> (nat \<times> flt) list \<times> flt \<times> flt))"
    using estimateGradients_forward[OF nb v len] eg by (simp add: raw_def all_def)
  then have sa: "standalone = standalone_indices nb all"
    and gs: "gradients = sort_desc (normalize_gradients raw (running_max 0 raw))"
    by (simp_all add: gradient_statistics_def Let_def)
  have fsts: "map fst (normalize_gradients raw m) = map fst raw" for m
    by (simp add: normalize_gradients_def case_prod_beta comp_def)
  have "map fst raw = grouped_indices nb all"
    by (simp add: raw_def raw_gradients_def comp_def)
  then have "set (map fst (normalize_gradients raw (running_max 0 raw))) = set (grouped_indices nb all)"
    by (simp only: fsts)
  moreover have "set (map fst gradients) = set (map fst (normalize_gradients raw (running_max 0 raw)))"
    by (simp add: gs)
  ultimately have g1: "set (map fst gradients) = set (grouped_indices nb all)"
    by (simp only:)
  have v1: "\<forall>idx\<in>set standalone. idx < length (cloud_filt ef)"
    using v by (auto simp: sa standalone_indices_def all_def)
  have v2: "\<forall>g\<in>set gradients. fst g < length (cloud_filt ef)"
  proof
    fix g assume "g \<in> set gradients"
    then have "fst g \<in> set (map fst gradients)" by simp
    then have "fst g \<in> set all" unfolding g1 by (simp add: grouped_indices_def)
    then show "fst g < length (cloud_filt ef)" using v unfolding all_def by blast
  qed
  have "length gradients = length (grouped_indices nb all)"
    by (simp add: gs normalize_gradients_def raw_def raw_gradients_def)
  then have l: "length standalone + length gradients \<le> features_count"
    using length_grouped_standalone[of nb all] len by (simp add: sa all_def)
  note r = select_forward[OF eg ce pos v1 v2 l]
  show ?thesis
    using r nb sa g1 v1 v2 unfolding all_def
    by (intro exI[of _ "map (\<lambda>idx. cloud_filt ef ! idx) standalone
                 @ map (\<lambda>g. cloud_filt ef ! fst g) (kept_gradients gradients (snd entry))"]
              exI[of _ "replicate (length standalone) (Num 1) @ map snd gradients
                 @ replicate (features_count - length standalone - length gradients) (Num 0)"]
              exI[of _ nb]) simp
qed

theorem selected_output_witness:
  "estimateGradients (default_object True) wall_scan 4 [[0, 1, 2, 3]] (Num 0.325)
     = Inr ([3], [(2, Num 1), (0, Num (4/5)), (1, Num (1/5))], Num (2/3), Num (sqrt (13/150))) \<and>
   cutoff_entry [(2, Num 1), (0, Num (4/5)), (1, Num (1/5))] 0.5 = Inr (0, Num (4/5)) \<and>
   selectFeaturesFromCloudByGradient (default_object True) wall_scan 4 [[0, 1, 2, 3]] (Num 0.325) 0.5
     = Inr ([point_at (- 10) 0, point_at 10 0.18, point_at 10 0],
            [Num 1, Num 1, Num (4/5), Num (1/5)], Num (2/3), Num (sqrt (13/150)), Num (4/5))"
proof -
  have h1: "0 < (4::nat)" by simp
  have h2: "length (concat [[0, 1, 2, 3::nat]]) \<le> 4" by simp
  have h3: "\<forall>idx\<in>set (concat [[0, 1, 2, 3::nat]]). idx < length (cloud_filt wall_scan) \<and>
      limits_ok (getNearestNeighborLimits (default_object True) (getRange wall_scan idx))"
    by (simp add: wall_scan_simps limits_ok_10)
  note h4 = wall_estimateGradients[of True]
  have h5: "cutoff_entry [(2, Num 1), (0, Num (4/5)), (1, Num (1/5))] 0.5 = Inr (0, Num (4/5))"
    by (simp add: cutoff_entry_def vec_at_def)
  from selected_output[OF h1 h2 h3 h4 h5]
  obtain selected gradient_norms_all where s:
    "selectFeaturesFromCloudByGradient (default_object True) wall_scan 4 [[0, 1, 2, 3]] (Num 0.325) 0.5
       = Inr (selected, gradient_norms_all, Num (2/3), Num (sqrt (13/150)), snd (0::nat, Num (4/5)))"
    "selected = map (\<lambda>idx. cloud_filt wall_scan ! idx) [3]
                 @ map (\<lambda>g. cloud_filt wall_scan ! fst g)
                     (kept_gradients [(2, Num 1), (0, Num (4/5)), (1, Num (1/5))] (snd (0::nat, Num (4/5))))"
    "gradient_norms_all = replicate (length [3::nat]) (Num 1)
                 @ map snd [(2::nat, Num 1), (0, Num (4/5)), (1, Num (1/5))]
                 @ replicate (4 - length [3::nat] - length [(2::nat, Num 1), (0, Num (4/5)), (1, Num (1/5))]) (Num 0)"
    by blast
  have "selected = [point_at (- 10) 0, point_at 10 0.18, point_at 10 0]"
    unfolding s(2) by (simp add: kept_gradients_def wall_scan_simps)
  moreover have "gradient_norms_all = [Num 1, Num 1, Num (4/5), Num (1/5)]"
    unfolding s(3) by simp
  ultimately show ?thesis using s(1) h4 h5 by simp
qed

text \<open>
  C7 as stated fails: in \<open>twin_scan\<close> both features are grouped, and both gradient
  magnitudes are zero, so the running maximum is zero and the division \<open>0/0\<close> makes every
  normalised gradient, the mean and the deviation a NaN: no value lies in \<open>[0, 1]\<close>, none
  is 1.0.
\<close>

theorem normalized_gradients_nan:
  "estimateGradients (default_object True) twin_scan 2 [[0, 1]] (Num 0.325)
     = Inr ([], [(0, NaN), (1, NaN)], NaN, NaN)"
  by (rule twin_estimateGradients)

text \<open>
  C7, amended. For every batch for which the neighbour search returns, whose candidates
  index into the filtered cloud and fit into \<open>features_count\<close>, and in which some grouped
  feature has a non-zero gradient magnitude (the running maximum is positive),
  \<open>estimateGradients\<close> returns; the gradient magnitude of each grouped feature is the norm
  of the sum of (neighbour position - feature position) divided by the neighbour count;
  the ranking holds every magnitude divided by the running maximum; every normalised
  gradient lies in \<open>[0, 1]\<close>; some grouped feature attains exactly 1.0, and when no two
  magnitudes are equal, exactly one does.
\<close>

theorem normalized_gradients:
  assumes nb: "getNeighborsInBB fs ef indices_in_filt search_radius = Inr nb"
    and valid: "\<forall>idx\<in>set (concat indices_in_filt). idx < length (cloud_filt ef)"
    and fc: "length (concat indices_in_filt) \<le> features_count"
    and pos: "0 < running_max 0 (raw_gradients (cloud_filt ef) nb (concat indices_in_filt))"
  shows "\<exists>gs mean std.
      estimateGradients fs ef features_count indices_in_filt search_radius
        = Inr (standalone_indices nb (concat indices_in_filt), gs, mean, std) \<and>
      gs = sort_desc (map (\<lambda>e. (fst e, Num (snd e / running_max 0
                 (raw_gradients (cloud_filt ef) nb (concat indices_in_filt)))))
             (raw_gradients (cloud_filt ef) nb (concat indices_in_filt))) \<and>
      (\<forall>e\<in>set (raw_gradients (cloud_filt ef) nb (concat indices_in_filt)).
          nb (fst e) \<noteq> [] \<and>
          snd e = norm3 (gradient_sum (cloud_filt ef) (nb (fst e)) (fst e)) / real (length (nb (fst e)))) \<and>
      (\<forall>g\<in>set gs. \<exists>x. snd g = Num x \<and> 0 \<le> x \<and> x \<le> 1) \<and>
      (\<exists>g\<in>set gs. snd g = Num 1) \<and>
      (distinct (map snd (raw_gradients (cloud_filt ef) nb (concat indices_in_filt)))
         \<longrightarrow> length (filter (\<lambda>g. snd g = Num 1) gs) = 1)"
proof -
  define raw where "raw = raw_gradients (cloud_filt ef) nb (concat indices_in_filt)"
  define M where "M = running_max 0 raw"
  define gs where "gs = sort_desc (map (\<lambda>e. (fst e, Num (snd e / M))) raw)"
  have M: "0 < M" using pos by (simp add: M_def raw_def)
  have eg: "estimateGradients fs ef features_count indices_in_filt search_radius
      = Inr (gradient_statistics raw (standalone_indices nb (concat indices_in_filt)) features_count)"
    unfolding raw_def by (rule estimateGradients_forward[OF nb valid fc])
  have norm: "normalize_gradients raw M = map (\<lambda>e. (fst e, Num (snd e / M))) raw"
    using M by (intro normalize_gradients_pos) simp
  obtain mean std where st:
    "gradient_statistics raw (standalone_indices nb (concat indices_in_filt)) features_count
      = (standalone_indices nb (concat indices_in_filt), gs, mean, std)"
    by (simp add: gradient_statistics_def Let_def M_def[symmetric] norm gs_def)
  have rawf: "nb (fst e) \<noteq> [] \<and>
          snd e = norm3 (gradient_sum (cloud_filt ef) (nb (fst e)) (fst e)) / real (length (nb (fst e)))"
    if "e \<in> set raw" for e
    using that by (auto simp: raw_def raw_gradients_def grouped_indices_def grad_norm_of_eq)
  have le: "snd e \<le> M" if "e \<in> set raw" for e
    unfolding M_def running_max_def using that by (intro foldl_max_ge_elem) auto
  have ge: "0 \<le> snd e" if "e \<in> set raw" for e
    using that by (auto simp: raw_def raw_gradients_def grad_norm_of_def norm3_nonneg)
  have bounds: "\<exists>x. snd g = Num x \<and> 0 \<le> x \<and> x \<le> 1" if "g \<in> set gs" for g
  proof -
    from that obtain e where e: "e \<in> set raw" "g = (fst e, Num (snd e / M))"
      by (auto simp: gs_def)
    then show ?thesis using le[OF e(1)] ge[OF e(1)] M by simp
  qed
  have "M = 0 \<or> M \<in> set (map snd raw)"
    unfolding M_def running_max_def by (rule foldl_max_mem)
  with M have Mmem: "M \<in> set (map snd raw)" by simp
  then obtain e where e: "e \<in> set raw" "snd e = M" by auto
  have "(fst e, Num (snd e / M)) \<in> set gs" using e(1) by (auto simp: gs_def)
  moreover have "snd (fst e, Num (snd e / M)) = Num 1" using e(2) M by simp
  ultimately have one: "\<exists>g\<in>set gs. snd g = Num 1" by blast
  have uniq: "length (filter (\<lambda>g. snd g = Num 1) gs) = 1" if d: "distinct (map snd raw)"
  proof -
    have "length (filter (\<lambda>g. snd g = Num 1) gs)
        = length (filter (\<lambda>g. snd g = Num 1) (map (\<lambda>e. (fst e, Num (snd e / M))) raw))"
      by (simp add: gs_def count_sort_desc)
    also have "\<dots> = length (filter (\<lambda>e. M = snd e) raw)"
      using M by (simp add: filter_map comp_def)
    also have "filter (\<lambda>e. M = snd e) raw = filter (\<lambda>e. snd e = M) raw"
      by (rule filter_cong) auto
    also have "length (filter (\<lambda>e. snd e = M) raw) = length (filter (\<lambda>y. y = M) (map snd raw))"
      by (simp add: filter_map comp_def)
    also have "\<dots> = 1" by (rule count_distinct[OF d Mmem])
    finally show ?thesis .
  qed
  show ?thesis
    using eg st rawf bounds one uniq
    unfolding raw_def[symmetric] M_def[symmetric]
    by (intro exI[of _ gs] exI[of _ mean] exI[of _ std]) (simp add: gs_def)
qed

theorem normalized_gradients_witness:
  "getNeighborsInBB (default_object True) wall_scan [[0, 1, 2, 3]] (Num 0.325) = Inr wall_neighbors \<and>
   0 < running_max 0 (raw_gradients (cloud_filt wall_scan) wall_neighbors (concat [[0, 1, 2, 3]])) \<and>
   distinct (map snd (raw_gradients (cloud_filt wall_scan) wall_neighbors (concat [[0, 1, 2, 3]]))) \<and>
   (\<exists>gs mean std.
      estimateGradients (default_object True) wall_scan 4 [[0, 1, 2, 3]] (Num 0.325)
        = Inr (standalone_indices wall_neighbors (concat [[0, 1, 2, 3]]), gs, mean, std) \<and>
      length (filter (\<lambda>g. snd g = Num 1) gs) = 1)"
proof -
  have h1: "getNeighborsInBB (default_object True) wall_scan [[0, 1, 2, 3]] (Num 0.325) = Inr wall_neighbors"
    by (rule wall_getNeighborsInBB)
  have h2: "\<forall>idx\<in>set (concat [[0, 1, 2, 3::nat]]). idx < length (cloud_filt wall_scan)"
    by (simp add: wall_scan_simps)
  have h3: "length (concat [[0, 1, 2, 3::nat]]) \<le> 4" by simp
  have h4: "0 < running_max 0 (raw_gradients (cloud_filt wall_scan) wall_neighbors (concat [[0, 1, 2, 3]]))"
    unfolding wall_raw by (simp add: running_max_def)
  have d: "distinct (map snd (raw_gradients (cloud_filt wall_scan) wall_neighbors (concat [[0, 1, 2, 3]])))"
    unfolding wall_raw by simp
  from normalized_gradients[OF h1 h2 h3 h4] d
  have "\<exists>gs mean std.
      estimateGradients (default_object True) wall_scan 4 [[0, 1, 2, 3]] (Num 0.325)
        = Inr (standalone_indices wall_neighbors (concat [[0, 1, 2, 3]]), gs, mean, std) \<and>
      length (filter (\<lambda>g. snd g = Num 1) gs) = 1"
    by blast
  with h1 h4 d show ?thesis by blast
qed

end
